theory Spec2Isabelle
  imports Main "HOL-Library.Sublist"
begin

section \<open>The documentation server of \<^verbatim>\<open>src/index.ts\<close>\<close>

text \<open>
  The program registers two tools, \<^verbatim>\<open>getOverviewDocFor\<close> and
  \<^verbatim>\<open>getDetailedDocFor\<close>. Each handler computes a path below the project
  root, checks that the file exists, reads it and answers with its text; every failure
  is caught and answered with an error response.

  The handlers are embedded as functions of an explicit environment: the file system
  calls (\<^verbatim>\<open>fs.access\<close>, \<^verbatim>\<open>fs.readFile\<close>, \<^verbatim>\<open>fs.readdir\<close>),
  \<^verbatim>\<open>import.meta.url\<close>, \<^verbatim>\<open>decodeURIComponent\<close> and
  \<^verbatim>\<open>process.cwd()\<close> are fields of a record, so that a theorem about a handler
  holds for every file system state. Each call may fail on its own: a file that passes
  the existence check may still fail to be read. A rejected promise or a thrown
  exception is the left summand of a sum type; the lines written with
  \<^verbatim>\<open>console.error\<close>, which does not throw, are returned as a list of log events.
  Paths are POSIX paths.
\<close>

subsection \<open>Strings and path segments\<close>

text \<open>
  JavaScript strings are modelled as \<^typ>\<open>string\<close>. The characters of the messages
  that cannot be written inside a literal here get names.
\<close>

definition dquote :: string where
  "dquote = [CHR 0x22]"

definition newline :: string where
  "newline = [CHR 0x0A]"

definition squote :: string where
  "squote = [CHR 0x27]"

text \<open>\<^verbatim>\<open>s.split(sep)\<close> for a separator of one character: never empty, \<^verbatim>\<open>"".split("/")\<close> is
  \<^verbatim>\<open>[""]\<close>.\<close>

fun split_on :: "char \<Rightarrow> string \<Rightarrow> string list" where
  "split_on c [] = [[]]"
| "split_on c (x # xs) =
     (if x = c then [] # split_on c xs
      else (case split_on c xs of
              [] \<Rightarrow> [[x]]
            | s # ss \<Rightarrow> (x # s) # ss))"

text \<open>\<^verbatim>\<open>xs.join(sep)\<close>.\<close>

fun join_with :: "string \<Rightarrow> string list \<Rightarrow> string" where
  "join_with sep [] = []"
| "join_with sep [x] = x"
| "join_with sep (x # y # ys) = x @ sep @ join_with sep (y # ys)"

subsection \<open>Thrown values\<close>

text \<open>
  What a \<^verbatim>\<open>catch\<close> clause receives. Both handlers read it only through
  \<^verbatim>\<open>error instanceof Error ? error.message : String(error)\<close>, so a thrown value is
  either an \<^verbatim>\<open>Error\<close> with its message or another value with its string
  conversion.
\<close>

datatype js_error = Error string | NonError string

fun error_message :: "js_error \<Rightarrow> string" where
  "error_message (Error message) = message"
| "error_message (NonError str) = str"

subsection \<open>Node's \<^verbatim>\<open>path\<close> module (POSIX)\<close>

text \<open>
  \<^verbatim>\<open>path.join\<close>, \<^verbatim>\<open>path.resolve\<close> and \<^verbatim>\<open>path.dirname\<close> belong to the
  Node.js runtime, not to the repository. They are modelled after \<^verbatim>\<open>path.posix\<close>
  of Node's \<^verbatim>\<open>lib/path.js\<close>.

  \<^verbatim>\<open>normalizeString(path, allowAboveRoot, "/", isPosixPathSeparator)\<close> walks the
  segments between slashes and keeps the segments of the result so far: an empty
  segment and \<^verbatim>\<open>.\<close> are dropped, \<^verbatim>\<open>..\<close> removes the last kept segment (unless
  there is none, or it is \<^verbatim>\<open>..\<close> itself: then \<^verbatim>\<open>..\<close> is kept when
  \<^verbatim>\<open>allowAboveRoot\<close> holds and dropped otherwise), every other segment is kept.
\<close>

definition normalize_step :: "bool \<Rightarrow> string list \<Rightarrow> string \<Rightarrow> string list" where
  "normalize_step allowAboveRoot res seg =
     (if seg = [] \<or> seg = ''.'' then res
      else if seg = ''..'' then
        (if res \<noteq> [] \<and> last res \<noteq> ''..'' then butlast res
         else if allowAboveRoot then res @ [''..'']
         else res)
      else res @ [seg])"

definition normalizeString :: "string \<Rightarrow> bool \<Rightarrow> string" where
  "normalizeString path allowAboveRoot =
     join_with ''/'' (foldl (normalize_step allowAboveRoot) [] (split_on CHR ''/'' path))"

text \<open>\<^verbatim>\<open>path.posix.normalize\<close>.\<close>

definition normalize :: "string \<Rightarrow> string" where
  "normalize path =
     (if path = [] then ''.''
      else
        let isAbsolute = (hd path = CHR ''/'');
            trailingSeparator = (last path = CHR ''/'');
            p = normalizeString path (\<not> isAbsolute)
        in if p = [] then
             (if isAbsolute then ''/'' else if trailingSeparator then ''./'' else ''.'')
           else
             (if isAbsolute then ''/'' else []) @ p @ (if trailingSeparator then ''/'' else []))"

text \<open>\<^verbatim>\<open>path.posix.join(...args)\<close>: the non-empty arguments, joined with a slash, then
  normalised; \<^verbatim>\<open>.\<close> when nothing is left.\<close>

definition join :: "string list \<Rightarrow> string" where
  "join args =
     (let joined = filter (\<lambda>arg. arg \<noteq> []) args
      in if joined = [] then ''.'' else normalize (join_with ''/'' joined))"

text \<open>
  \<^verbatim>\<open>path.posix.resolve(...args)\<close>: the arguments are prepended from the right until an
  absolute one is met; only when none was met is \<^verbatim>\<open>process.cwd()\<close> asked, and it
  may throw. \<open>resolve_loop\<close> takes the arguments from the right to the left.
\<close>

fun resolve_loop :: "string list \<Rightarrow> (js_error + string) \<Rightarrow> string \<Rightarrow> js_error + (string \<times> bool)" where
  "resolve_loop [] cwd resolvedPath =
     (case cwd of
        Inl e \<Rightarrow> Inl e
      | Inr path \<Rightarrow>
          (if path = [] then Inr (resolvedPath, False)
           else Inr (path @ ''/'' @ resolvedPath, hd path = CHR ''/'')))"
| "resolve_loop (path # rest) cwd resolvedPath =
     (if path = [] then resolve_loop rest cwd resolvedPath
      else if hd path = CHR ''/'' then Inr (path @ ''/'' @ resolvedPath, True)
      else resolve_loop rest cwd (path @ ''/'' @ resolvedPath))"

definition resolve :: "(js_error + string) \<Rightarrow> string list \<Rightarrow> js_error + string" where
  "resolve cwd args =
     (case resolve_loop (rev args) cwd [] of
        Inl e \<Rightarrow> Inl e
      | Inr (resolvedPath, resolvedAbsolute) \<Rightarrow>
          let r = normalizeString resolvedPath (\<not> resolvedAbsolute)
          in if resolvedAbsolute then Inr (''/'' @ r)
             else if r \<noteq> [] then Inr r else Inr ''.'')"

text \<open>
  \<^verbatim>\<open>path.posix.dirname(path)\<close>: scanning from the right down to index 1, the trailing
  slashes and then the last segment are skipped; \<open>end\<close> is the index of the slash
  before that segment, if there is one.
\<close>

definition dirname_end :: "string \<Rightarrow> nat option" where
  "dirname_end path =
     (let r = dropWhile (\<lambda>c. c \<noteq> CHR ''/'') (dropWhile (\<lambda>c. c = CHR ''/'') (rev (tl path)))
      in if r = [] then None else Some (length r))"

definition dirname :: "string \<Rightarrow> string" where
  "dirname path =
     (if path = [] then ''.''
      else
        let hasRoot = (hd path = CHR ''/'')
        in case dirname_end path of
             None \<Rightarrow> (if hasRoot then ''/'' else ''.'')
           | Some e \<Rightarrow> (if hasRoot \<and> e = 1 then ''//'' else take e path))"

subsection \<open>Environment, log and responses\<close>

text \<open>
  The environment of a request. \<open>import_meta_url_pathname\<close> is
  \<^verbatim>\<open>new URL(import.meta.url).pathname\<close>; \<open>access p\<close> is
  \<^verbatim>\<open>fs.access(p, fs.constants.F_OK)\<close>, \<open>readFile p\<close> is
  \<^verbatim>\<open>fs.readFile(p, "utf-8")\<close> and \<open>readdir p\<close> is \<^verbatim>\<open>fs.readdir(p)\<close>, each
  either rejected with a thrown value or fulfilled.
\<close>

record env =
  import_meta_url_pathname :: string
  decodeURIComponent :: "string \<Rightarrow> js_error + string"
  cwd :: "js_error + string"
  access :: "string \<Rightarrow> js_error + unit"
  readFile :: "string \<Rightarrow> js_error + string"
  readdir :: "string \<Rightarrow> js_error + string list"

text \<open>One constructor for each \<^verbatim>\<open>console.error\<close> call of the source, carrying the
  values its template interpolates.\<close>

datatype log_event =
    ModulePath string                      \<comment> \<open>\<^verbatim>\<open>Module path: ${modulePath}\<close>\<close>
  | ProjectRoot string                     \<comment> \<open>\<^verbatim>\<open>Project root: ${projectRoot}\<close>\<close>
  | AttemptingToRead string                \<comment> \<open>\<^verbatim>\<open>Attempting to read file at: ${docPath}\<close>\<close>
  | FileExists string                      \<comment> \<open>\<^verbatim>\<open>File exists at: ${docPath}\<close>\<close>
  | SuccessfullyRead nat                   \<comment> \<open>\<^verbatim>\<open>Successfully read file with ${content.length} characters\<close>\<close>
  | ErrorReadingDoc string                 \<comment> \<open>\<^verbatim>\<open>Error reading doc: ${errorMessage}\<close>\<close>
  | FilesInDocs "string list"              \<comment> \<open>\<^verbatim>\<open>Files in docs directory: ${JSON.stringify(files)}\<close>\<close>
  | FilesInSubdir string "string list"     \<comment> \<open>\<^verbatim>\<open>Files in docs/${name} directory: ${JSON.stringify(subFiles)}\<close>\<close>
  | ErrorListing string                    \<comment> \<open>\<^verbatim>\<open>Error listing directory: ${...}\<close>\<close>
  | AttemptingDetailed string              \<comment> \<open>\<^verbatim>\<open>Attempting to read detailed doc at: ${docPath}\<close>\<close>
  | DetailedExists string                  \<comment> \<open>\<^verbatim>\<open>Detailed doc exists at: ${docPath}\<close>\<close>
  | SuccessfullyReadDetailed nat           \<comment> \<open>\<^verbatim>\<open>Successfully read detailed doc with ${content.length} characters\<close>\<close>
  | ErrorReadingDetailed string            \<comment> \<open>\<^verbatim>\<open>Error reading detailed doc: ${errorMessage}\<close>\<close>
  | AvailableDocuments string "string list" \<comment> \<open>\<^verbatim>\<open>Available documents in ${project}: ${JSON.stringify(files)}\<close>\<close>

text \<open>The object a handler returns: \<open>isError\<close> is \<open>None\<close> when the property is absent.\<close>

record content_item =
  type :: string
  "text" :: string

record response =
  content :: "content_item list"
  isError :: "bool option"

subsection \<open>Computations that log and may throw\<close>

text \<open>
  A piece of handler code yields the lines it logged and either the thrown value
  (\<open>Inl\<close>) or its result (\<open>Inr\<close>). \<open>io_bind\<close> is sequencing: a throw skips the rest.
  \<open>try_catch\<close> is \<^verbatim>\<open>try { ... } catch (e) { ... }\<close>.
\<close>

type_synonym 'a io = "log_event list \<times> (js_error + 'a)"

definition io_return :: "'a \<Rightarrow> 'a io" where
  "io_return x = ([], Inr x)"

definition io_of :: "js_error + 'a \<Rightarrow> 'a io" where
  "io_of r = ([], r)"

definition console_error :: "log_event \<Rightarrow> unit io" where
  "console_error ev = ([ev], Inr ())"

definition io_bind :: "'a io \<Rightarrow> ('a \<Rightarrow> 'b io) \<Rightarrow> 'b io" where
  "io_bind m f =
     (case m of
        (l, Inl e) \<Rightarrow> (l, Inl e)
      | (l, Inr x) \<Rightarrow> (case f x of (l', r) \<Rightarrow> (l @ l', r)))"

definition try_catch :: "'a io \<Rightarrow> (js_error \<Rightarrow> 'a io) \<Rightarrow> 'a io" where
  "try_catch m h =
     (case m of
        (l, Inr x) \<Rightarrow> (l, Inr x)
      | (l, Inl e) \<Rightarrow> (case h e of (l', r) \<Rightarrow> (l @ l', r)))"

subsection \<open>The project root\<close>

text \<open>
  Lines 26--30, repeated at 96--98 and 126--128:
  \<^verbatim>\<open>modulePath = path.dirname(decodeURIComponent(moduleURL.pathname))\<close> and
  \<^verbatim>\<open>projectRoot = path.resolve(modulePath, '..')\<close>. \<^verbatim>\<open>decodeURIComponent\<close> throws
  a \<^verbatim>\<open>URIError\<close> on a malformed escape sequence.
\<close>

definition module_projectRoot :: "env \<Rightarrow> (string \<times> string) io" where
  "module_projectRoot env =
     io_bind (io_of (decodeURIComponent env (import_meta_url_pathname env))) (\<lambda>decoded.
       let modulePath = dirname decoded
       in io_bind (io_of (resolve (cwd env) [modulePath, ''..''])) (\<lambda>projectRoot.
            io_return (modulePath, projectRoot)))"

subsection \<open>\<^verbatim>\<open>getOverviewDocFor\<close>\<close>

text \<open>The path of line 36.\<close>

definition overviewDocPath :: "string \<Rightarrow> string \<Rightarrow> string" where
  "overviewDocPath projectRoot name = join [projectRoot, ''docs'', name, ''overview.md'']"

text \<open>The body of the \<^verbatim>\<open>try\<close> block, lines 22--53.\<close>

definition overview_try :: "env \<Rightarrow> string \<Rightarrow> response io" where
  "overview_try env name =
     io_bind (module_projectRoot env) (\<lambda>(modulePath, projectRoot).
     io_bind (console_error (ModulePath modulePath)) (\<lambda>_.
     io_bind (console_error (ProjectRoot projectRoot)) (\<lambda>_.
       let docPath = overviewDocPath projectRoot name
       in
     io_bind (console_error (AttemptingToRead docPath)) (\<lambda>_.
     io_bind (io_of (access env docPath)) (\<lambda>_.
     io_bind (console_error (FileExists docPath)) (\<lambda>_.
     io_bind (io_of (readFile env docPath)) (\<lambda>fileText.
     io_bind (console_error (SuccessfullyRead (length fileText))) (\<lambda>_.
     io_return \<lparr>content = [\<lparr>type = ''text'', text = fileText\<rparr>], isError = None\<rparr>))))))))"

text \<open>The inner \<^verbatim>\<open>try\<close> block, lines 61--70: what it finds is only logged.\<close>

definition overview_listing :: "env \<Rightarrow> string \<Rightarrow> unit io" where
  "overview_listing env name =
     io_bind (io_of (cwd env)) (\<lambda>projectRoot.
       let docsDir = join [projectRoot, ''docs'']
       in
     io_bind (io_of (readdir env docsDir)) (\<lambda>files.
     io_bind (console_error (FilesInDocs files)) (\<lambda>_.
       if name \<in> set files then
         (let subDir = join [docsDir, name]
          in io_bind (io_of (readdir env subDir)) (\<lambda>subFiles.
               console_error (FilesInSubdir name subFiles)))
       else io_return ())))"

text \<open>The \<^verbatim>\<open>catch (error)\<close> block, lines 55--81.\<close>

definition overview_catch :: "env \<Rightarrow> string \<Rightarrow> js_error \<Rightarrow> response io" where
  "overview_catch env name error =
     (let errorMessage = error_message error
      in
     io_bind (console_error (ErrorReadingDoc errorMessage)) (\<lambda>_.
     io_bind (try_catch (overview_listing env name)
                (\<lambda>e. console_error (ErrorListing (error_message e)))) (\<lambda>_.
     io_return
       \<lparr>content =
          [\<lparr>type = ''text'',
            text = ''Error: Could not find overview document for '' @ dquote @ name @ dquote
                   @ ''. '' @ errorMessage\<rparr>],
        isError = Some True\<rparr>)))"

definition getOverviewDocFor :: "env \<Rightarrow> string \<Rightarrow> response io" where
  "getOverviewDocFor env name = try_catch (overview_try env name) (overview_catch env name)"

subsection \<open>\<^verbatim>\<open>getDetailedDocFor\<close>\<close>

text \<open>The path of line 101 and the directory of line 129.\<close>

definition detailDocPath :: "string \<Rightarrow> string \<Rightarrow> string \<Rightarrow> string" where
  "detailDocPath projectRoot project document =
     join [projectRoot, ''docs'', project, document @ ''.md'']"

definition projectDirPath :: "string \<Rightarrow> string \<Rightarrow> string" where
  "projectDirPath projectRoot project = join [projectRoot, ''docs'', project]"

text \<open>The body of the \<^verbatim>\<open>try\<close> block, lines 95--118.\<close>

definition detail_try :: "env \<Rightarrow> string \<Rightarrow> string \<Rightarrow> response io" where
  "detail_try env project document =
     io_bind (module_projectRoot env) (\<lambda>(modulePath, projectRoot).
       let docPath = detailDocPath projectRoot project document
       in
     io_bind (console_error (AttemptingDetailed docPath)) (\<lambda>_.
     io_bind (io_of (access env docPath)) (\<lambda>_.
     io_bind (console_error (DetailedExists docPath)) (\<lambda>_.
     io_bind (io_of (readFile env docPath)) (\<lambda>fileText.
     io_bind (console_error (SuccessfullyReadDetailed (length fileText))) (\<lambda>_.
     io_return \<lparr>content = [\<lparr>type = ''text'', text = fileText\<rparr>], isError = None\<rparr>))))))"

text \<open>The inner \<^verbatim>\<open>try\<close> block, lines 126--145: it returns the response that lists
  the directory.\<close>

definition detail_listing :: "env \<Rightarrow> string \<Rightarrow> string \<Rightarrow> string \<Rightarrow> response io" where
  "detail_listing env project document errorMessage =
     io_bind (module_projectRoot env) (\<lambda>(modulePath, projectRoot).
       let projectDir = projectDirPath projectRoot project
       in
     io_bind (io_of (access env projectDir)) (\<lambda>_.
     io_bind (io_of (readdir env projectDir)) (\<lambda>files.
     io_bind (console_error (AvailableDocuments project files)) (\<lambda>_.
     io_return
       \<lparr>content =
          [\<lparr>type = ''text'',
            text = ''Error: Could not find document '' @ dquote @ document @ ''.md'' @ dquote
                   @ '' for project '' @ dquote @ project @ dquote @ ''. '' @ newline
                   @ ''Available documents: '' @ join_with '', '' files @ ''. ''
                   @ errorMessage\<rparr>],
        isError = Some True\<rparr>))))"

text \<open>The inner \<^verbatim>\<open>catch (e)\<close> block, lines 147--154.\<close>

definition detail_no_project :: "string \<Rightarrow> string \<Rightarrow> string \<Rightarrow> response io" where
  "detail_no_project project document errorMessage =
     io_return
       \<lparr>content =
          [\<lparr>type = ''text'',
            text = ''Error: Could not find project '' @ dquote @ project @ dquote
                   @ '' or document '' @ dquote @ document @ ''.md'' @ dquote @ ''. ''
                   @ errorMessage\<rparr>],
        isError = Some True\<rparr>"

text \<open>The \<^verbatim>\<open>catch (error)\<close> block, lines 120--155.\<close>

definition detail_catch :: "env \<Rightarrow> string \<Rightarrow> string \<Rightarrow> js_error \<Rightarrow> response io" where
  "detail_catch env project document error =
     (let errorMessage = error_message error
      in
     io_bind (console_error (ErrorReadingDetailed errorMessage)) (\<lambda>_.
     try_catch (detail_listing env project document errorMessage)
       (\<lambda>e. detail_no_project project document errorMessage)))"

definition getDetailedDocFor :: "env \<Rightarrow> string \<Rightarrow> string \<Rightarrow> response io" where
  "getDetailedDocFor env project document =
     try_catch (detail_try env project document) (detail_catch env project document)"

subsection \<open>Registration: the parameter schemas\<close>

text \<open>
  \<^verbatim>\<open>server.tool(name, { ... : z.string() }, handler)\<close>: the SDK parses the arguments
  of a call against the schema and runs the handler on the parsed values only when the
  parse succeeds. \<^verbatim>\<open>z.string()\<close> of the zod library accepts a value exactly when it
  is a string; it has no length constraint (that would be \<^verbatim>\<open>z.string().min(1)\<close>).
  A missing argument is \<^verbatim>\<open>undefined\<close>, which is not a string.
\<close>

datatype json =
    JNull
  | JBool bool
  | JNumber int
  | JString string
  | JArray "json list"
  | JObject "(string \<times> json) list"

datatype zod_issue = InvalidType

definition z_string :: "json option \<Rightarrow> zod_issue + string" where
  "z_string v = (case v of Some (JString s) \<Rightarrow> Inr s | _ \<Rightarrow> Inl InvalidType)"

text \<open>A call either fails the schema, and the handler does not run, or is handled.\<close>

datatype call_result = InvalidParams | Handled "response io"

definition call_getOverviewDocFor :: "env \<Rightarrow> (string \<rightharpoonup> json) \<Rightarrow> call_result" where
  "call_getOverviewDocFor env args =
     (case z_string (args ''name'') of
        Inl issue \<Rightarrow> InvalidParams
      | Inr name \<Rightarrow> Handled (getOverviewDocFor env name))"

definition call_getDetailedDocFor :: "env \<Rightarrow> (string \<rightharpoonup> json) \<Rightarrow> call_result" where
  "call_getDetailedDocFor env args =
     (case z_string (args ''project'') of
        Inl issue \<Rightarrow> InvalidParams
      | Inr project \<Rightarrow>
          (case z_string (args ''document'') of
             Inl issue \<Rightarrow> InvalidParams
           | Inr document \<Rightarrow> Handled (getDetailedDocFor env project document)))"

subsection \<open>A sample installation\<close>

text \<open>
  The server installed in \<^verbatim>\<open>/srv/app\<close>, running \<^verbatim>\<open>/srv/app/build/index.js\<close>
  from the working directory \<^verbatim>\<open>/srv/app\<close>. Below \<^verbatim>\<open>docs\<close> there are the
  namespace \<^verbatim>\<open>sample\<close> with \<^verbatim>\<open>overview.md\<close> and \<^verbatim>\<open>tool.md\<close>, and the
  namespace \<^verbatim>\<open>drafts\<close> with \<^verbatim>\<open>notes.md\<close> only; beside \<^verbatim>\<open>docs\<close> there is a
  directory \<^verbatim>\<open>private\<close> that is not documentation.
\<close>

text \<open>The error of Node for a path that does not exist, for example
  \<^verbatim>\<open>ENOENT: no such file or directory, access '/srv/app/docs/ghost'\<close>: the system call
  is \<^verbatim>\<open>access\<close> for \<^verbatim>\<open>fs.access\<close>, \<^verbatim>\<open>open\<close> for \<^verbatim>\<open>fs.readFile\<close> and
  \<^verbatim>\<open>scandir\<close> for \<^verbatim>\<open>fs.readdir\<close>.\<close>

definition enoent :: "string \<Rightarrow> string \<Rightarrow> js_error" where
  "enoent syscall p =
     Error (''ENOENT: no such file or directory, '' @ syscall @ '' '' @ squote @ p @ squote)"

definition sample_files :: "(string \<times> string) list" where
  "sample_files =
     [(''/srv/app/docs/sample/overview.md'', ''Hello''),
      (''/srv/app/docs/sample/tool.md'', ''# Tools''),
      (''/srv/app/docs/drafts/notes.md'', ''todo''),
      (''/srv/app/private/overview.md'', ''secret'')]"

definition sample_dirs :: "(string \<times> string list) list" where
  "sample_dirs =
     [(''/srv/app'', [''build'', ''docs'', ''private'']),
      (''/srv/app/docs'', [''drafts'', ''sample'']),
      (''/srv/app/docs/drafts'', [''notes.md'']),
      (''/srv/app/docs/sample'', [''overview.md'', ''tool.md'']),
      (''/srv/app/private'', [''overview.md''])]"

definition sample_env :: env where
  "sample_env =
     \<lparr>import_meta_url_pathname = ''/srv/app/build/index.js'',
      decodeURIComponent = (\<lambda>s. Inr s),
      cwd = Inr ''/srv/app'',
      access = (\<lambda>p. if p \<in> fst ` set sample_files \<or> p \<in> fst ` set sample_dirs
                      then Inr () else Inl (enoent ''access'' p)),
      readFile = (\<lambda>p. case map_of sample_files p of
                         Some t \<Rightarrow> Inr t
                       | None \<Rightarrow> Inl (enoent ''open'' p)),
      readdir = (\<lambda>p. case map_of sample_dirs p of
                        Some fs \<Rightarrow> Inr fs
                      | None \<Rightarrow> Inl (enoent ''scandir'' p))\<rparr>"

text \<open>The same installation, started from another working directory.\<close>

definition elsewhere_env :: env where
  "elsewhere_env = sample_env\<lparr>cwd := Inr ''/home/user''\<rparr>"

text \<open>The same installation with directories that exist but may not be listed: a
  directory without read permission passes \<^verbatim>\<open>fs.access(p, F_OK)\<close> and lets its files
  be opened, and \<^verbatim>\<open>fs.readdir\<close> is refused.\<close>

definition locked_env :: env where
  "locked_env =
     sample_env\<lparr>readdir :=
       (\<lambda>p. Inl (Error (''EACCES: permission denied, scandir '' @ squote @ p @ squote)))\<rparr>"

subsection \<open>Plain segments\<close>

text \<open>
  A segment that \<open>normalize_step\<close> keeps as it is: not empty, neither \<^verbatim>\<open>.\<close> nor
  \<^verbatim>\<open>..\<close>, and without a slash.
\<close>

definition plain_segment :: "string \<Rightarrow> bool" where
  "plain_segment seg =
     (seg \<noteq> [] \<and> seg \<noteq> ''.'' \<and> seg \<noteq> ''..'' \<and> CHR ''/'' \<notin> set seg)"

subsection \<open>Staying below a directory\<close>

text \<open>
  A path lies below a directory when it continues the directory's path after a slash.
  The paths compared are results of \<open>join\<close>, which hold no \<^verbatim>\<open>.\<close> or \<^verbatim>\<open>..\<close>
  segment once they are absolute, so the comparison of the texts decides it.
\<close>

definition path_under :: "string \<Rightarrow> string \<Rightarrow> bool" where
  "path_under dir p = prefix (dir @ ''/'') p"

section \<open>Basic facts\<close>

subsection \<open>Sequencing and catching\<close>

lemma io_bind_Inl: "io_bind (l, Inl e) f = (l, Inl e)"
  by (simp add: io_bind_def)

lemma io_bind_Inr: "io_bind (l, Inr x) f = (l @ fst (f x), snd (f x))"
  by (simp add: io_bind_def split: prod.splits)

lemma io_bind_console: "io_bind (console_error ev) f = (ev # fst (f ()), snd (f ()))"
  by (simp add: console_error_def io_bind_Inr)

lemma io_bind_of_Inl: "io_bind (io_of (Inl e)) f = ([], Inl e)"
  by (simp add: io_of_def io_bind_Inl)

lemma io_bind_of_Inr: "io_bind (io_of (Inr x)) f = f x"
  by (simp add: io_of_def io_bind_Inr)

lemma try_catch_Inr: "try_catch (l, Inr x) h = (l, Inr x)"
  by (simp add: try_catch_def)

lemma try_catch_Inl: "try_catch (l, Inl e) h = (l @ fst (h e), snd (h e))"
  by (simp add: try_catch_def split: prod.splits)

lemmas io_simps = io_bind_Inl io_bind_Inr io_bind_console io_bind_of_Inl io_bind_of_Inr
  try_catch_Inr try_catch_Inl io_return_def Let_def

lemma snd_io_bind_Inr: "snd m = Inr x \<Longrightarrow> snd (io_bind m f) = snd (f x)"
  by (cases m) (simp add: io_bind_Inr)

lemma snd_io_bind_Inl: "snd m = Inl e \<Longrightarrow> snd (io_bind m f) = Inl e"
  by (cases m) (simp add: io_bind_Inl)

lemma fst_io_bind_Inr: "snd m = Inr x \<Longrightarrow> fst (io_bind m f) = fst m @ fst (f x)"
  by (cases m) (simp add: io_bind_Inr)

lemma fst_try_catch_Inl: "snd m = Inl e \<Longrightarrow> fst (try_catch m h) = fst m @ fst (h e)"
  by (cases m) (simp add: try_catch_Inl)

lemma fst_try_catch_mono: "set (fst m) \<subseteq> set (fst (try_catch m h))"
  by (cases m) (auto simp: try_catch_def split: sum.splits prod.splits)

subsection \<open>Splitting at slashes and joining\<close>

lemma split_on_not_Nil: "split_on c xs \<noteq> []"
  by (induction xs) (auto split: list.splits)

lemma split_on_append_sep: "split_on c (a @ c # b) = split_on c a @ split_on c b"
proof (induction a)
  case Nil
  then show ?case by simp
next
  case (Cons x a)
  then show ?case
    using split_on_not_Nil [of c a]
    by (cases "split_on c a") auto
qed

lemma split_on_no_sep: "c \<notin> set s \<Longrightarrow> split_on c s = [s]"
  by (induction s) auto

lemma split_on_segments: "s \<in> set (split_on c xs) \<Longrightarrow> c \<notin> set s"
proof (induction xs arbitrary: s)
  case Nil
  then show ?case by simp
next
  case (Cons x xs)
  then show ?case
    by (cases "split_on c xs") (auto split: if_splits)
qed

lemma split_on_append_no_sep:
  "c \<notin> set ys \<Longrightarrow>
     split_on c (xs @ ys) = butlast (split_on c xs) @ [last (split_on c xs) @ ys]"
proof (induction xs)
  case Nil
  then show ?case by (simp add: split_on_no_sep)
next
  case (Cons x xs)
  then show ?case
    using split_on_not_Nil [of c xs] split_on_not_Nil [of c "xs @ ys"]
    by (cases "split_on c xs") (auto split: list.splits)
qed

lemma join_with_append:
  "xs \<noteq> [] \<Longrightarrow> ys \<noteq> [] \<Longrightarrow> join_with sep (xs @ ys) = join_with sep xs @ sep @ join_with sep ys"
proof (induction sep xs rule: join_with.induct)
  case (1 sep)
  then show ?case by simp
next
  case (2 sep x)
  then show ?case by (cases ys) simp_all
next
  case (3 sep x y zs)
  then show ?case by simp
qed

lemma split_on_join_with:
  "segs \<noteq> [] \<Longrightarrow> \<forall>s \<in> set segs. c \<notin> set s \<Longrightarrow> split_on c (join_with [c] segs) = segs"
proof (induction "[c]" segs rule: join_with.induct)
  case 1
  then show ?case by simp
next
  case (2 x)
  then show ?case by (simp add: split_on_no_sep)
next
  case (3 x y ys)
  then show ?case by (simp add: split_on_append_sep split_on_no_sep)
qed

subsection \<open>Normalising the segments\<close>

lemma normalize_step_keep:
  "seg \<noteq> ''..'' \<Longrightarrow>
     normalize_step b res seg = (if seg = [] \<or> seg = ''.'' then res else res @ [seg])"
  by (simp add: normalize_step_def)

lemma foldl_step_no_dotdot:
  "''..'' \<notin> set segs \<Longrightarrow>
     foldl (normalize_step b) acc segs = acc @ filter (\<lambda>s. s \<noteq> [] \<and> s \<noteq> ''.'') segs"
  by (induction segs arbitrary: acc) (auto simp: normalize_step_keep)

lemma foldl_step_plain:
  assumes "\<forall>s \<in> set segs. plain_segment s"
  shows "foldl (normalize_step b) acc segs = acc @ segs"
proof -
  from assms have "''..'' \<notin> set segs"
    by (auto simp: plain_segment_def)
  moreover from assms have "filter (\<lambda>s. s \<noteq> [] \<and> s \<noteq> ''.'') segs = segs"
    by (auto simp: plain_segment_def intro!: filter_True)
  ultimately show ?thesis by (simp add: foldl_step_no_dotdot)
qed

lemma normalize_step_False_plain:
  assumes "\<forall>s \<in> set acc. plain_segment s" and "CHR ''/'' \<notin> set seg"
  shows "\<forall>s \<in> set (normalize_step False acc seg). plain_segment s"
  using assms by (auto simp: normalize_step_def plain_segment_def dest: in_set_butlastD)

lemma foldl_step_False_plain:
  "\<forall>s \<in> set acc. plain_segment s \<Longrightarrow> \<forall>s \<in> set segs. CHR ''/'' \<notin> set s \<Longrightarrow>
     \<forall>s \<in> set (foldl (normalize_step False) acc segs). plain_segment s"
proof (induction segs arbitrary: acc)
  case Nil
  then show ?case by simp
next
  case (Cons seg segs)
  from Cons.prems have "\<forall>s \<in> set (normalize_step False acc seg). plain_segment s"
    by (intro normalize_step_False_plain) simp_all
  with Cons show ?case by simp
qed

lemma normalizeString_segments_plain:
  "\<forall>s \<in> set (foldl (normalize_step False) [] (split_on CHR ''/'' p)). plain_segment s"
  by (rule foldl_step_False_plain) (auto dest: split_on_segments)

lemma normalizeString_trailing_slash:
  "normalizeString (p @ ''/'') b = normalizeString p b"
  by (simp add: normalizeString_def split_on_append_sep normalize_step_def)

lemma normalizeString_double_slash:
  "normalizeString (a @ ''//'' @ b) f = normalizeString (a @ ''/'' @ b) f"
  by (simp add: normalizeString_def split_on_append_sep normalize_step_def)

lemma normalize_absolute:
  assumes "p \<noteq> []" and "hd p = CHR ''/''" and "last p \<noteq> CHR ''/''"
  shows "normalize p = ''/'' @ normalizeString p False"
  using assms by (simp add: normalize_def Let_def)

subsection \<open>The directory of the module and its parent\<close>

lemma dirname_absolute:
  assumes "decoded \<noteq> []" and "hd decoded = CHR ''/''"
  shows "dirname decoded \<noteq> [] \<and> hd (dirname decoded) = CHR ''/''"
proof (cases "dirname_end decoded")
  case None
  with assms show ?thesis by (simp add: dirname_def)
next
  case (Some e)
  then have "e \<noteq> 0"
    by (auto simp: dirname_end_def Let_def simp del: dropWhile_eq_Nil_conv split: if_splits)
  then obtain n where e: "e = Suc n"
    by (cases e) simp_all
  from assms obtain xs where d: "decoded = CHR ''/'' # xs"
    by (cases decoded) simp_all
  have "take e decoded = CHR ''/'' # take n xs"
    by (simp add: e d)
  moreover have "dirname decoded = (if e = 1 then ''//'' else take e decoded)"
    using assms by (simp add: dirname_def Some)
  ultimately show ?thesis by simp
qed

lemma resolve_parent:
  assumes "m \<noteq> []" and "hd m = CHR ''/''"
  shows "resolve wd [m, ''..''] = Inr (''/'' @ normalizeString (m @ ''/..'') False)"
proof -
  have "resolve_loop (rev [m, ''..'']) wd [] = Inr (m @ ''/'' @ ''../'', True)"
    using assms by simp
  moreover have "normalizeString (m @ ''/'' @ ''../'') False = normalizeString (m @ ''/..'') False"
    using normalizeString_trailing_slash [of "m @ ''/..''" False] by simp
  ultimately show ?thesis
    by (simp add: resolve_def)
qed

lemma resolve_parent_normalize:
  assumes "m \<noteq> []" and "hd m = CHR ''/''"
  shows "resolve wd [m, ''..''] = Inr (normalize (m @ ''/..''))"
  using assms by (simp add: resolve_parent normalize_absolute)

lemma root_absolute:
  assumes "m \<noteq> []" and "hd m = CHR ''/''"
  shows "normalize (m @ ''/..'') \<noteq> [] \<and> hd (normalize (m @ ''/..'')) = CHR ''/''"
  using assms by (simp add: normalize_absolute)

text \<open>
  The project root is a slash followed by plain segments.
\<close>

lemma root_segments:
  assumes "m \<noteq> []" and "hd m = CHR ''/''"
  obtains rs where "normalize (m @ ''/..'') = ''/'' @ join_with ''/'' rs"
    and "\<forall>s \<in> set rs. plain_segment s"
proof
  show "normalize (m @ ''/..'') =
          ''/'' @ join_with ''/'' (foldl (normalize_step False) [] (split_on CHR ''/'' (m @ ''/..'')))"
    using assms by (simp add: normalize_absolute normalizeString_def)
  show "\<forall>s \<in> set (foldl (normalize_step False) [] (split_on CHR ''/'' (m @ ''/..''))). plain_segment s"
    by (rule normalizeString_segments_plain)
qed

lemma split_on_root:
  assumes "\<forall>s \<in> set rs. plain_segment s"
  shows "foldl (normalize_step b) [] (split_on CHR ''/'' (''/'' @ join_with ''/'' rs)) = rs"
proof (cases "rs = []")
  case True
  then show ?thesis by (simp add: normalize_step_def)
next
  case False
  with assms have "split_on CHR ''/'' (join_with ''/'' rs) = rs"
    by (intro split_on_join_with) (auto simp: plain_segment_def)
  with assms show ?thesis
    by (simp add: foldl_step_plain) (simp add: normalize_step_def)
qed

subsection \<open>The paths of the documents\<close>

lemma join_as_normalize4:
  assumes "root \<noteq> []" and "d \<noteq> []"
  shows "join [root, ''docs'', n, d] = normalize (root @ ''/docs/'' @ n @ ''/'' @ d)"
proof (cases "n = []")
  case True
  have "normalizeString (root @ ''/docs/'' @ ''/'' @ d) f = normalizeString (root @ ''/docs/'' @ d) f" for f
    using normalizeString_double_slash [of "root @ ''/docs''" d f] by simp
  moreover have "last (root @ ''/docs/'' @ ''/'' @ d) = last (root @ ''/docs/'' @ d)"
    using assms by simp
  moreover have "hd (root @ ''/docs/'' @ ''/'' @ d) = hd (root @ ''/docs/'' @ d)"
    using assms by simp
  ultimately have "normalize (root @ ''/docs/'' @ ''/'' @ d) = normalize (root @ ''/docs/'' @ d)"
    by (simp add: normalize_def)
  with True assms show ?thesis
    by (simp add: join_def)
next
  case False
  with assms show ?thesis by (simp add: join_def)
qed

lemma split_on_doc_path:
  "split_on CHR ''/'' (root @ ''/docs/'' @ n @ ''/'' @ d) =
     split_on CHR ''/'' root @ [''docs''] @ split_on CHR ''/'' n @ split_on CHR ''/'' d"
proof -
  have "split_on CHR ''/'' (root @ ''/docs/'' @ n @ ''/'' @ d) =
          split_on CHR ''/'' (root @ CHR ''/'' # (''docs'' @ CHR ''/'' # (n @ CHR ''/'' # d)))"
    by simp
  also have "\<dots> = split_on CHR ''/'' root
                 @ split_on CHR ''/'' (''docs'' @ CHR ''/'' # (n @ CHR ''/'' # d))"
    by (rule split_on_append_sep)
  also have "split_on CHR ''/'' (''docs'' @ CHR ''/'' # (n @ CHR ''/'' # d)) =
               split_on CHR ''/'' ''docs'' @ split_on CHR ''/'' (n @ CHR ''/'' # d)"
    by (rule split_on_append_sep)
  also have "split_on CHR ''/'' (n @ CHR ''/'' # d) = split_on CHR ''/'' n @ split_on CHR ''/'' d"
    by (rule split_on_append_sep)
  finally show ?thesis by simp
qed

lemma doc_path_segments:
  assumes "root \<noteq> []" and "hd root = CHR ''/''" and "d \<noteq> []" and "last d \<noteq> CHR ''/''"
  shows "normalize (root @ ''/docs/'' @ n @ ''/'' @ d) =
           ''/'' @ join_with ''/''
             (foldl (normalize_step False)
                (foldl (normalize_step False) [] (split_on CHR ''/'' root) @ [''docs''])
                (split_on CHR ''/'' n @ split_on CHR ''/'' d))"
proof -
  let ?p = "root @ ''/docs/'' @ n @ ''/'' @ d"
  let ?rest = "split_on CHR ''/'' n @ split_on CHR ''/'' d"
  have "normalize ?p = ''/'' @ normalizeString ?p False"
    using assms by (intro normalize_absolute) simp_all
  moreover have "normalizeString ?p False =
      join_with ''/'' (foldl (normalize_step False) []
         (split_on CHR ''/'' root @ [''docs''] @ ?rest))"
    by (simp only: normalizeString_def split_on_doc_path)
  moreover have "foldl (normalize_step False) [] (split_on CHR ''/'' root @ [''docs''] @ ?rest) =
      foldl (normalize_step False)
        (foldl (normalize_step False) [] (split_on CHR ''/'' root) @ [''docs'']) ?rest"
    by (simp add: normalize_step_def)
  ultimately show ?thesis
    by (simp only:)
qed

lemma docs_root_segments:
  assumes "root \<noteq> []" and "hd root = CHR ''/''"
  shows "join [root, ''docs''] =
           ''/'' @ join_with ''/''
             (foldl (normalize_step False) [] (split_on CHR ''/'' root) @ [''docs''])"
proof -
  have "split_on CHR ''/'' (root @ CHR ''/'' # ''docs'') =
          split_on CHR ''/'' root @ split_on CHR ''/'' ''docs''"
    by (rule split_on_append_sep)
  moreover have "normalize_step False rs ''docs'' = rs @ [''docs'']" for rs
    by (simp add: normalize_step_def)
  ultimately have "normalizeString (root @ ''/docs'') False =
      join_with ''/'' (foldl (normalize_step False) [] (split_on CHR ''/'' root) @ [''docs''])"
    by (simp add: normalizeString_def)
  moreover have "normalize (root @ ''/docs'') = ''/'' @ normalizeString (root @ ''/docs'') False"
    using assms by (intro normalize_absolute) simp_all
  ultimately show ?thesis
    using assms by (simp add: join_def)
qed

lemma md_segments:
  "split_on CHR ''/'' (document @ ''.md'') =
     butlast (split_on CHR ''/'' document) @ [last (split_on CHR ''/'' document) @ ''.md'']"
  by (rule split_on_append_no_sep) simp

lemma md_segments_no_dotdot:
  assumes "''..'' \<notin> set (split_on CHR ''/'' document)"
  shows "''..'' \<notin> set (split_on CHR ''/'' (document @ ''.md''))"
proof -
  have "last (split_on CHR ''/'' document) @ ''.md'' \<noteq> ''..''"
  proof
    assume "last (split_on CHR ''/'' document) @ ''.md'' = ''..''"
    then have "length (last (split_on CHR ''/'' document) @ ''.md'') = length ''..''"
      by (rule arg_cong)
    then show False by simp
  qed
  then show ?thesis
    using assms by (auto simp: md_segments dest: in_set_butlastD)
qed

lemma md_segments_kept:
  "filter (\<lambda>s. s \<noteq> [] \<and> s \<noteq> ''.'') (split_on CHR ''/'' (document @ ''.md'')) \<noteq> []"
proof -
  have "last (split_on CHR ''/'' document) @ ''.md'' \<noteq> ''.''"
  proof
    assume "last (split_on CHR ''/'' document) @ ''.md'' = ''.''"
    then have "length (last (split_on CHR ''/'' document) @ ''.md'') = length ''.''"
      by (rule arg_cong)
    then show False by simp
  qed
  then show ?thesis by (simp add: md_segments)
qed

lemma under_docs:
  assumes root: "root \<noteq> []" "hd root = CHR ''/''"
    and segs: "''..'' \<notin> set (split_on CHR ''/'' n)" "''..'' \<notin> set (split_on CHR ''/'' d)"
    and d: "d \<noteq> []" "last d \<noteq> CHR ''/''"
    and keep: "filter (\<lambda>s. s \<noteq> [] \<and> s \<noteq> ''.'') (split_on CHR ''/'' d) \<noteq> []"
  shows "path_under (join [root, ''docs'']) (normalize (root @ ''/docs/'' @ n @ ''/'' @ d))"
proof -
  let ?ds = "foldl (normalize_step False) [] (split_on CHR ''/'' root) @ [''docs'']"
  let ?ns = "filter (\<lambda>s. s \<noteq> [] \<and> s \<noteq> ''.'') (split_on CHR ''/'' n @ split_on CHR ''/'' d)"
  from segs have "''..'' \<notin> set (split_on CHR ''/'' n @ split_on CHR ''/'' d)"
    by simp
  then have "foldl (normalize_step False) ?ds
                (split_on CHR ''/'' n @ split_on CHR ''/'' d) = ?ds @ ?ns"
    by (rule foldl_step_no_dotdot)
  then have "normalize (root @ ''/docs/'' @ n @ ''/'' @ d) = ''/'' @ join_with ''/'' (?ds @ ?ns)"
    by (simp only: doc_path_segments [OF root d])
  moreover from keep have "?ns \<noteq> []" by simp
  then have "join_with ''/'' (?ds @ ?ns) = join_with ''/'' ?ds @ ''/'' @ join_with ''/'' ?ns"
    by (intro join_with_append) simp_all
  ultimately have "normalize (root @ ''/docs/'' @ n @ ''/'' @ d) =
      (join [root, ''docs''] @ ''/'') @ join_with ''/'' ?ns"
    by (simp only: docs_root_segments [OF root] append_assoc)
  then show ?thesis
    by (simp only: path_under_def prefixI)
qed

lemma literal_path:
  assumes root: "root = normalize (m @ ''/..'')" "m \<noteq> []" "hd m = CHR ''/''" "root \<noteq> ''/''"
    and n: "plain_segment n" and d: "plain_segment d"
  shows "normalize (root @ ''/docs/'' @ n @ ''/'' @ d) = root @ ''/docs/'' @ n @ ''/'' @ d"
proof -
  from root_segments [OF root(2,3)] obtain rs where
    rs: "normalize (m @ ''/..'') = ''/'' @ join_with ''/'' rs" "\<forall>s \<in> set rs. plain_segment s"
    by blast
  with root have ne: "rs \<noteq> []" by auto
  from rs root have r: "root = ''/'' @ join_with ''/'' rs" by simp
  have ra: "root \<noteq> []" "hd root = CHR ''/''"
    by (simp_all add: r)
  from d have da: "d \<noteq> []" "last d \<noteq> CHR ''/''"
    by (metis plain_segment_def, metis last_in_set plain_segment_def)
  have "foldl (normalize_step False) [] (split_on CHR ''/'' root) = rs"
    unfolding r using rs(2) by (rule split_on_root)
  moreover have "split_on CHR ''/'' n = [n]" "split_on CHR ''/'' d = [d]"
    using n d by (simp_all add: plain_segment_def split_on_no_sep)
  moreover have "foldl (normalize_step False) (rs @ [''docs'']) [n, d] = (rs @ [''docs'']) @ [n, d]"
    using n d by (intro foldl_step_plain) simp
  ultimately have "foldl (normalize_step False)
       (foldl (normalize_step False) [] (split_on CHR ''/'' root) @ [''docs''])
       (split_on CHR ''/'' n @ split_on CHR ''/'' d) = rs @ [''docs'', n, d]"
    by simp
  then have "normalize (root @ ''/docs/'' @ n @ ''/'' @ d) =
      ''/'' @ join_with ''/'' (rs @ [''docs'', n, d])"
    by (simp only: doc_path_segments [OF ra da])
  moreover have "join_with ''/'' (rs @ [''docs'', n, d]) =
      join_with ''/'' rs @ ''/'' @ join_with ''/'' [''docs'', n, d]"
    using ne by (intro join_with_append) simp_all
  ultimately show ?thesis
    by (simp add: r)
qed

lemma plain_md: "CHR ''/'' \<notin> set document \<Longrightarrow> plain_segment (document @ ''.md'')"
proof -
  assume "CHR ''/'' \<notin> set document"
  moreover have "document @ ''.md'' \<noteq> ''.''" "document @ ''.md'' \<noteq> ''..''"
    by (auto dest: arg_cong [where f = length])
  ultimately show ?thesis by (simp add: plain_segment_def)
qed

subsection \<open>Substrings\<close>

lemma sublist_in_mid:
  assumes "sublist f m"
  shows "sublist f (a @ m @ b)"
proof -
  from assms obtain ps ss where "m = ps @ f @ ss"
    by (auto simp: sublist_def)
  then have "a @ m @ b = (a @ ps) @ f @ (ss @ b)"
    by simp
  then show ?thesis
    unfolding sublist_def by blast
qed

lemma sublist_join_with: "f \<in> set files \<Longrightarrow> sublist f (join_with sep files)"
proof (induction sep files rule: join_with.induct)
  case (1 sep)
  then show ?case by simp
next
  case (2 sep x)
  then show ?case by simp
next
  case (3 sep x y ys)
  show ?case
  proof (cases "f = x")
    case True
    then show ?thesis by simp
  next
    case False
    with 3 have "sublist f (join_with sep (y # ys))" by simp
    from sublist_in_mid [OF this, of "x @ sep" "[]"] show ?thesis by simp
  qed
qed

subsection \<open>The project root\<close>

lemma module_projectRoot_ok:
  assumes "decodeURIComponent env (import_meta_url_pathname env) = Inr decoded"
    and "resolve (cwd env) [dirname decoded, ''..''] = Inr projectRoot"
  shows "module_projectRoot env = ([], Inr (dirname decoded, projectRoot))"
  using assms by (simp add: module_projectRoot_def io_simps)

lemma module_projectRoot_absolute:
  assumes "decodeURIComponent env (import_meta_url_pathname env) = Inr decoded"
    and "decoded \<noteq> []" and "hd decoded = CHR ''/''"
  shows "module_projectRoot env =
           ([], Inr (dirname decoded, normalize (dirname decoded @ ''/..'')))"
proof -
  from dirname_absolute [OF assms(2,3)]
  have "resolve (cwd env) [dirname decoded, ''..''] = Inr (normalize (dirname decoded @ ''/..''))"
    by (intro resolve_parent_normalize) simp_all
  with assms(1) show ?thesis by (rule module_projectRoot_ok)
qed

subsection \<open>The results of the handlers, branch by branch\<close>

lemma overview_listing_caught:
  "snd (try_catch (overview_listing env name)
          (\<lambda>e. console_error (ErrorListing (error_message e)))) = Inr ()"
  by (cases "overview_listing env name")
     (simp add: try_catch_def console_error_def split: sum.splits)

lemma overview_catch_snd:
  "snd (overview_catch env name e) =
     Inr \<lparr>content = [\<lparr>type = ''text'',
            text = ''Error: Could not find overview document for '' @ dquote @ name @ dquote
                   @ ''. '' @ error_message e\<rparr>], isError = Some True\<rparr>"
  by (simp add: overview_catch_def io_simps snd_io_bind_Inr [OF overview_listing_caught])

lemma getOverviewDocFor_cases:
  "snd (getOverviewDocFor env name) =
     (case snd (overview_try env name) of
        Inr r \<Rightarrow> Inr r
      | Inl e \<Rightarrow> snd (overview_catch env name e))"
  by (cases "overview_try env name")
     (simp add: getOverviewDocFor_def try_catch_def split: sum.splits prod.splits)

lemma overview_try_response:
  "snd (overview_try env name) = Inr r \<Longrightarrow>
     \<exists>t. r = \<lparr>content = [\<lparr>type = ''text'', text = t\<rparr>], isError = None\<rparr>"
  by (auto simp: overview_try_def io_bind_def io_of_def io_return_def console_error_def Let_def
      split: sum.splits prod.splits)

lemma detail_try_response:
  "snd (detail_try env project document) = Inr r \<Longrightarrow>
     \<exists>t. r = \<lparr>content = [\<lparr>type = ''text'', text = t\<rparr>], isError = None\<rparr>"
  by (auto simp: detail_try_def io_bind_def io_of_def io_return_def console_error_def Let_def
      split: sum.splits prod.splits)

lemma detail_listing_response:
  "snd (detail_listing env project document m) = Inr r \<Longrightarrow>
     \<exists>t. r = \<lparr>content = [\<lparr>type = ''text'', text = t\<rparr>], isError = Some True\<rparr>"
  by (auto simp: detail_listing_def io_bind_def io_of_def io_return_def console_error_def Let_def
      split: sum.splits prod.splits)

lemma detail_catch_snd:
  "snd (detail_catch env project document e) =
     (case snd (detail_listing env project document (error_message e)) of
        Inr r \<Rightarrow> Inr r
      | Inl e' \<Rightarrow> snd (detail_no_project project document (error_message e)))"
  by (cases "detail_listing env project document (error_message e)")
     (simp add: detail_catch_def io_simps try_catch_def split: sum.splits prod.splits)

lemma getDetailedDocFor_cases:
  "snd (getDetailedDocFor env project document) =
     (case snd (detail_try env project document) of
        Inr r \<Rightarrow> Inr r
      | Inl e \<Rightarrow> snd (detail_catch env project document e))"
  by (cases "detail_try env project document")
     (simp add: getDetailedDocFor_def try_catch_def split: sum.splits prod.splits)

lemma detail_catch_response:
  "\<exists>t. snd (detail_catch env project document e) =
     Inr \<lparr>content = [\<lparr>type = ''text'', text = t\<rparr>], isError = Some True\<rparr>"
proof (cases "snd (detail_listing env project document (error_message e))")
  case (Inl e')
  then show ?thesis by (simp add: detail_catch_snd detail_no_project_def io_return_def)
next
  case (Inr r)
  with detail_listing_response [OF Inr] show ?thesis by (auto simp: detail_catch_snd)
qed

lemma overview_try_access_fails:
  assumes "decodeURIComponent env (import_meta_url_pathname env) = Inr decoded"
    and "resolve (cwd env) [dirname decoded, ''..''] = Inr projectRoot"
    and "access env (overviewDocPath projectRoot name) = Inl e"
  shows "snd (overview_try env name) = Inl e"
  using assms(3)
  by (simp add: overview_try_def module_projectRoot_ok [OF assms(1,2)] io_simps)

lemma detail_try_access_fails:
  assumes "decodeURIComponent env (import_meta_url_pathname env) = Inr decoded"
    and "resolve (cwd env) [dirname decoded, ''..''] = Inr projectRoot"
    and "access env (detailDocPath projectRoot project document) = Inl e"
  shows "snd (detail_try env project document) = Inl e"
  using assms(3)
  by (simp add: detail_try_def module_projectRoot_ok [OF assms(1,2)] io_simps)

lemma overview_listing_docs:
  assumes "cwd env = Inr d" and "readdir env (join [d, ''docs'']) = Inr files"
  shows "FilesInDocs files \<in> set (fst (overview_listing env name))"
  using assms by (simp add: overview_listing_def io_simps)

lemma overview_listing_subdir:
  assumes "cwd env = Inr d" and "readdir env (join [d, ''docs'']) = Inr files"
    and "name \<in> set files" and "readdir env (join [join [d, ''docs''], name]) = Inr subFiles"
  shows "FilesInSubdir name subFiles \<in> set (fst (overview_listing env name))"
  using assms by (simp add: overview_listing_def io_simps console_error_def)

lemma overview_catch_log:
  "set (fst (overview_listing env name)) \<subseteq> set (fst (overview_catch env name e))"
proof -
  have "fst (overview_catch env name e) =
          ErrorReadingDoc (error_message e) #
          fst (try_catch (overview_listing env name)
                 (\<lambda>e. console_error (ErrorListing (error_message e))))"
    by (simp add: overview_catch_def io_simps fst_io_bind_Inr [OF overview_listing_caught])
  with fst_try_catch_mono show ?thesis by fastforce
qed

lemma detail_listing_fails:
  assumes "decodeURIComponent env (import_meta_url_pathname env) = Inr decoded"
    and "resolve (cwd env) [dirname decoded, ''..''] = Inr projectRoot"
    and "access env (projectDirPath projectRoot project) = Inl e' \<or>
         readdir env (projectDirPath projectRoot project) = Inl e'"
  shows "isl (snd (detail_listing env project document m))"
proof (cases "access env (projectDirPath projectRoot project)")
  case (Inl a)
  then show ?thesis
    by (simp add: detail_listing_def module_projectRoot_ok [OF assms(1,2)] io_simps)
next
  case (Inr u)
  with assms(3) have "readdir env (projectDirPath projectRoot project) = Inl e'"
    by simp
  with Inr show ?thesis
    by (simp add: detail_listing_def module_projectRoot_ok [OF assms(1,2)] io_simps)
qed

lemma overview_catch_listing_fails_log:
  assumes "snd (overview_listing env name) = Inl e'"
  shows "last (fst (overview_catch env name e)) = ErrorListing (error_message e')"
proof -
  have "fst (overview_catch env name e) =
          ErrorReadingDoc (error_message e) #
          fst (try_catch (overview_listing env name)
                 (\<lambda>e. console_error (ErrorListing (error_message e))))"
    by (simp add: overview_catch_def io_simps fst_io_bind_Inr [OF overview_listing_caught])
  then show ?thesis
    by (simp add: fst_try_catch_Inl [OF assms] console_error_def)
qed

subsection \<open>The first lines of the log\<close>

lemma fst_try_catch_prefix: "take (length (fst m)) (fst (try_catch m h)) = fst m"
  by (cases m) (auto simp: try_catch_def split: sum.splits prod.splits)

lemma take_prefix_of_try_catch:
  assumes "take k (fst m) = l" and "k \<le> length (fst m)"
  shows "take k (fst (try_catch m h)) = l"
proof -
  have "take k (fst (try_catch m h)) = take k (take (length (fst m)) (fst (try_catch m h)))"
    using assms(2) by (simp add: min_def)
  with assms(1) show ?thesis by (simp only: fst_try_catch_prefix)
qed

lemma overview_try_log:
  assumes "module_projectRoot env = ([], Inr (m, root))"
  shows "\<exists>rest. fst (overview_try env name) =
           ModulePath m # ProjectRoot root # AttemptingToRead (overviewDocPath root name) # rest"
  by (simp add: overview_try_def assms io_simps)

lemma detail_try_log:
  assumes "module_projectRoot env = ([], Inr (m, root))"
  shows "\<exists>rest. fst (detail_try env project document) =
           AttemptingDetailed (detailDocPath root project document) # rest"
  by (simp add: detail_try_def assms io_simps)

lemma overview_log_prefix:
  assumes "module_projectRoot env = ([], Inr (m, root))"
  shows "take 3 (fst (getOverviewDocFor env name)) =
           [ModulePath m, ProjectRoot root, AttemptingToRead (overviewDocPath root name)]"
proof -
  from overview_try_log [OF assms] obtain rest where
    "fst (overview_try env name) =
       ModulePath m # ProjectRoot root # AttemptingToRead (overviewDocPath root name) # rest"
    by blast
  then have "take 3 (fst (overview_try env name)) =
           [ModulePath m, ProjectRoot root, AttemptingToRead (overviewDocPath root name)]"
    and "3 \<le> length (fst (overview_try env name))"
    by simp_all
  then show ?thesis
    unfolding getOverviewDocFor_def by (rule take_prefix_of_try_catch)
qed

lemma detail_log_prefix:
  assumes "module_projectRoot env = ([], Inr (m, root))"
  shows "take 1 (fst (getDetailedDocFor env project document)) =
           [AttemptingDetailed (detailDocPath root project document)]"
proof -
  from detail_try_log [OF assms] obtain rest where
    "fst (detail_try env project document) =
       AttemptingDetailed (detailDocPath root project document) # rest"
    by blast
  then have "take 1 (fst (detail_try env project document)) =
           [AttemptingDetailed (detailDocPath root project document)]"
    and "1 \<le> length (fst (detail_try env project document))"
    by simp_all
  then show ?thesis
    unfolding getDetailedDocFor_def by (rule take_prefix_of_try_catch)
qed

subsection \<open>The sample installation\<close>

lemmas path_eval = overviewDocPath_def detailDocPath_def projectDirPath_def join_def
  normalize_def normalizeString_def normalize_step_def

lemmas sample_eval = sample_env_def sample_files_def sample_dirs_def enoent_def squote_def

lemma sample_root:
  "decodeURIComponent sample_env (import_meta_url_pathname sample_env) =
     Inr ''/srv/app/build/index.js''"
  "resolve (cwd sample_env) [dirname ''/srv/app/build/index.js'', ''..''] = Inr ''/srv/app''"
  by (simp_all add: sample_env_def resolve_def dirname_def dirname_end_def
      normalizeString_def normalize_step_def)

lemma sample_decoded:
  "decodeURIComponent sample_env (import_meta_url_pathname sample_env) =
     Inr ''/srv/app/build/index.js''"
  by (simp add: sample_env_def)

lemma sample_root_normalize:
  "''/srv/app'' = normalize (dirname ''/srv/app/build/index.js'' @ ''/..'')"
  by (simp add: dirname_def dirname_end_def path_eval)

lemma elsewhere_root:
  "decodeURIComponent elsewhere_env (import_meta_url_pathname elsewhere_env) =
     Inr ''/srv/app/build/index.js''"
  "resolve (cwd elsewhere_env) [dirname ''/srv/app/build/index.js'', ''..''] = Inr ''/srv/app''"
  by (simp_all add: elsewhere_env_def sample_env_def resolve_def dirname_def dirname_end_def
      normalizeString_def normalize_step_def)

lemma sample_overview_drafts_fails:
  "snd (overview_try sample_env ''drafts'') =
     Inl (enoent ''access'' ''/srv/app/docs/drafts/overview.md'')"
  by (simp add: overview_try_def module_projectRoot_ok [OF sample_root] io_simps path_eval)
     (simp add: sample_eval io_simps)


lemma sample_detail_ghost_fails:
  "snd (detail_try sample_env ''ghost'' ''resource'') =
     Inl (enoent ''access'' ''/srv/app/docs/ghost/resource.md'')"
  by (simp add: detail_try_def module_projectRoot_ok [OF sample_root] io_simps path_eval)
     (simp add: sample_eval io_simps)

lemma elsewhere_overview_ghost_fails:
  "snd (overview_try elsewhere_env ''ghost'') =
     Inl (enoent ''access'' ''/srv/app/docs/ghost/overview.md'')"
  by (simp add: overview_try_def module_projectRoot_ok [OF elsewhere_root] io_simps path_eval)
     (simp add: elsewhere_env_def sample_eval io_simps)

lemma elsewhere_listing_fails:
  "snd (overview_listing elsewhere_env ''ghost'') = Inl (enoent ''scandir'' ''/home/user/docs'')"
  by (simp add: overview_listing_def elsewhere_env_def sample_eval io_simps path_eval)

lemma locked_root:
  "decodeURIComponent locked_env (import_meta_url_pathname locked_env) =
     Inr ''/srv/app/build/index.js''"
  "resolve (cwd locked_env) [dirname ''/srv/app/build/index.js'', ''..''] = Inr ''/srv/app''"
  by (simp_all add: locked_env_def sample_env_def resolve_def dirname_def dirname_end_def
      normalizeString_def normalize_step_def)

lemma locked_detail_resource_fails:
  "snd (detail_try locked_env ''sample'' ''resource'') =
     Inl (enoent ''access'' ''/srv/app/docs/sample/resource.md'')"
  by (simp add: detail_try_def module_projectRoot_ok [OF locked_root] io_simps path_eval)
     (simp add: locked_env_def sample_eval io_simps)

lemma locked_listing_fails:
  "snd (detail_listing locked_env ''sample'' ''resource'' m) =
     Inl (Error (''EACCES: permission denied, scandir '' @ squote @ ''/srv/app/docs/sample''
                  @ squote))"
  by (simp add: detail_listing_def module_projectRoot_ok [OF locked_root] io_simps path_eval)
     (simp add: locked_env_def sample_eval io_simps)

section \<open>The claims\<close>

subsection \<open>C1: an existing, readable file is returned unchanged\<close>

text \<open>
  Claim C1. Let the project root resolve to \<open>projectRoot\<close>. If the existence check of
  \<^verbatim>\<open>path.join(projectRoot, "docs", name, "overview.md")\<close>, the file
  \<^verbatim>\<open>docs/<name>/overview.md\<close>, passes and reading that file yields \<open>fileText\<close>, then
  \<^verbatim>\<open>getOverviewDocFor(name)\<close> fulfils with the response whose single text item is
  \<open>fileText\<close>, with no \<^verbatim>\<open>isError\<close>; likewise \<^verbatim>\<open>getDetailedDocFor(project, document)\<close>
  and \<^verbatim>\<open>path.join(projectRoot, "docs", project, document + ".md")\<close>, the file
  \<^verbatim>\<open>docs/<project>/<document>.md\<close>.
\<close>

theorem getDoc_returns_file_verbatim:
  assumes "decodeURIComponent env (import_meta_url_pathname env) = Inr decoded"
    and "resolve (cwd env) [dirname decoded, ''..''] = Inr projectRoot"
  shows "(access env (join [projectRoot, ''docs'', name, ''overview.md'']) = Inr () \<and>
          readFile env (join [projectRoot, ''docs'', name, ''overview.md'']) = Inr fileText \<longrightarrow>
          snd (getOverviewDocFor env name) =
            Inr \<lparr>content = [\<lparr>type = ''text'', text = fileText\<rparr>], isError = None\<rparr>) \<and>
         (access env (join [projectRoot, ''docs'', project, document @ ''.md'']) = Inr () \<and>
          readFile env (join [projectRoot, ''docs'', project, document @ ''.md'']) =
            Inr fileText' \<longrightarrow>
          snd (getDetailedDocFor env project document) =
            Inr \<lparr>content = [\<lparr>type = ''text'', text = fileText'\<rparr>], isError = None\<rparr>)"
  by (simp add: getOverviewDocFor_def getDetailedDocFor_def overview_try_def detail_try_def
      overviewDocPath_def detailDocPath_def module_projectRoot_ok [OF assms] io_simps)

text \<open>
  In the sample installation \<^verbatim>\<open>/srv/app/docs/sample/overview.md\<close> holds \<^verbatim>\<open>Hello\<close>
  and \<^verbatim>\<open>/srv/app/docs/sample/tool.md\<close> holds \<^verbatim>\<open># Tools\<close>; these are the texts
  returned for \<^verbatim>\<open>sample\<close> and for \<^verbatim>\<open>sample\<close>, \<^verbatim>\<open>tool\<close>.
\<close>

theorem getDoc_returns_file_verbatim_witness:
  "join [''/srv/app'', ''docs'', ''sample'', ''overview.md''] =
     ''/srv/app/docs/sample/overview.md'' \<and>
   readFile sample_env ''/srv/app/docs/sample/overview.md'' = Inr ''Hello'' \<and>
   snd (getOverviewDocFor sample_env ''sample'') =
     Inr \<lparr>content = [\<lparr>type = ''text'', text = ''Hello''\<rparr>], isError = None\<rparr> \<and>
   join [''/srv/app'', ''docs'', ''sample'', ''tool'' @ ''.md''] =
     ''/srv/app/docs/sample/tool.md'' \<and>
   readFile sample_env ''/srv/app/docs/sample/tool.md'' = Inr ''# Tools'' \<and>
   snd (getDetailedDocFor sample_env ''sample'' ''tool'') =
     Inr \<lparr>content = [\<lparr>type = ''text'', text = ''# Tools''\<rparr>], isError = None\<rparr>"
proof -
  have j: "join [''/srv/app'', ''docs'', ''sample'', ''overview.md''] =
             ''/srv/app/docs/sample/overview.md''"
    "join [''/srv/app'', ''docs'', ''sample'', ''tool'' @ ''.md''] =
             ''/srv/app/docs/sample/tool.md''"
    by (simp_all add: path_eval)
  have f: "access sample_env ''/srv/app/docs/sample/overview.md'' = Inr ()"
    "readFile sample_env ''/srv/app/docs/sample/overview.md'' = Inr ''Hello''"
    "access sample_env ''/srv/app/docs/sample/tool.md'' = Inr ()"
    "readFile sample_env ''/srv/app/docs/sample/tool.md'' = Inr ''# Tools''"
    by (simp_all add: sample_eval)
  from getDoc_returns_file_verbatim
    [OF sample_root, of "''sample''" "''Hello''" "''sample''" "''tool''" "''# Tools''"]
  show ?thesis
    by (simp only: j f simp_thms)
qed

subsection \<open>C2: how the paths are resolved\<close>

text \<open>
  Claim C2. Let \<open>decoded\<close>, the decoded path of the running module, be absolute, and
  let \<open>root\<close> be the parent of its directory, \<^verbatim>\<open><dirname(decoded)>/..\<close> normalised. Then
  both handlers compute \<open>root\<close> as the project root, whatever the working directory
  and the file system are; the overview path is \<^verbatim>\<open><root>/docs/<name>/overview.md\<close> and
  the detail path is \<^verbatim>\<open><root>/docs/<project>/<document>.md\<close>, both normalised as
  \<^verbatim>\<open>path.join\<close> does; these are the paths the handlers log as the ones they
  attempt to read. When \<open>root\<close> is not \<^verbatim>\<open>/\<close> and the request segments are plain
  (\<open>document\<close>: without a slash), the paths are these very texts.
\<close>

theorem path_resolution:
  assumes "decodeURIComponent env (import_meta_url_pathname env) = Inr decoded"
    and "decoded \<noteq> []" and "hd decoded = CHR ''/''"
    and "root = normalize (dirname decoded @ ''/..'')"
  shows "module_projectRoot env = ([], Inr (dirname decoded, root)) \<and>
         overviewDocPath root name = normalize (root @ ''/docs/'' @ name @ ''/overview.md'') \<and>
         detailDocPath root project document =
           normalize (root @ ''/docs/'' @ project @ ''/'' @ document @ ''.md'') \<and>
         take 3 (fst (getOverviewDocFor env name)) =
           [ModulePath (dirname decoded), ProjectRoot root,
            AttemptingToRead (overviewDocPath root name)] \<and>
         take 1 (fst (getDetailedDocFor env project document)) =
           [AttemptingDetailed (detailDocPath root project document)] \<and>
         (root \<noteq> ''/'' \<and> plain_segment name \<longrightarrow>
            overviewDocPath root name = root @ ''/docs/'' @ name @ ''/overview.md'') \<and>
         (root \<noteq> ''/'' \<and> plain_segment project \<and> CHR ''/'' \<notin> set document \<longrightarrow>
            detailDocPath root project document =
              root @ ''/docs/'' @ project @ ''/'' @ document @ ''.md'')"
proof -
  note m = dirname_absolute [OF assms(2,3)]
  have mp: "module_projectRoot env = ([], Inr (dirname decoded, root))"
    unfolding assms(4) using assms(1-3) by (rule module_projectRoot_absolute)
  have ra: "root \<noteq> []"
    unfolding assms(4) using m by (simp add: root_absolute)
  have ov: "overviewDocPath root name = normalize (root @ ''/docs/'' @ name @ ''/overview.md'')"
    using join_as_normalize4 [OF ra, of "''overview.md''" name]
    by (simp add: overviewDocPath_def)
  have de: "detailDocPath root project document =
           normalize (root @ ''/docs/'' @ project @ ''/'' @ document @ ''.md'')"
    using join_as_normalize4 [OF ra, of "document @ ''.md''" project]
    by (simp add: detailDocPath_def)
  have lit1: "overviewDocPath root name = root @ ''/docs/'' @ name @ ''/overview.md''"
    if "root \<noteq> ''/''" "plain_segment name"
    using literal_path [OF assms(4) _ _ that(1) that(2), of "''overview.md''"] m ov
    by (simp add: plain_segment_def)
  have lit2: "detailDocPath root project document =
              root @ ''/docs/'' @ project @ ''/'' @ document @ ''.md''"
    if "root \<noteq> ''/''" "plain_segment project" "CHR ''/'' \<notin> set document"
    using literal_path [OF assms(4) _ _ that(1) that(2) plain_md [OF that(3)]] m de
    by simp
  from mp ov de overview_log_prefix [OF mp] detail_log_prefix [OF mp] lit1 lit2
  show ?thesis by blast
qed

text \<open>
  The sample installation, \<^verbatim>\<open>sample\<close> and \<^verbatim>\<open>tool\<close>.
\<close>

theorem path_resolution_witness:
  "overviewDocPath ''/srv/app'' ''sample'' = ''/srv/app/docs/sample/overview.md'' \<and>
   detailDocPath ''/srv/app'' ''sample'' ''tool'' = ''/srv/app/docs/sample/tool.md'' \<and>
   take 3 (fst (getOverviewDocFor sample_env ''sample'')) =
     [ModulePath ''/srv/app/build'', ProjectRoot ''/srv/app'',
      AttemptingToRead ''/srv/app/docs/sample/overview.md''] \<and>
   take 1 (fst (getDetailedDocFor sample_env ''sample'' ''tool'')) =
     [AttemptingDetailed ''/srv/app/docs/sample/tool.md'']"
proof -
  have d: "dirname ''/srv/app/build/index.js'' = ''/srv/app/build''"
    by (simp add: dirname_def dirname_end_def)
  have p: "''/srv/app'' \<noteq> ''/'' \<and> plain_segment ''sample'' \<and> CHR ''/'' \<notin> set ''tool''"
    by (simp add: plain_segment_def)
  from path_resolution [OF sample_decoded _ _ sample_root_normalize,
      of "''sample''" "''sample''" "''tool''"] p d
  show ?thesis by auto
qed

subsection \<open>C3: staying below the documentation root\<close>

text \<open>
  Claim C3 says that the constructed path never leaves the documentation root. Nothing
  in the handlers rejects a \<^verbatim>\<open>..\<close> segment, and \<^verbatim>\<open>path.join\<close> resolves it: in
  the sample installation the name \<^verbatim>\<open>../private\<close> leads to
  \<^verbatim>\<open>/srv/app/private/overview.md\<close>, outside \<^verbatim>\<open>/srv/app/docs\<close>, and the handler
  returns that file; so do the project \<^verbatim>\<open>..\<close> and the document
  \<^verbatim>\<open>private/overview\<close>.
\<close>

theorem traversal_leaves_docs_counterexample:
  "overviewDocPath ''/srv/app'' ''../private'' = ''/srv/app/private/overview.md'' \<and>
   \<not> path_under (join [''/srv/app'', ''docs'']) (overviewDocPath ''/srv/app'' ''../private'') \<and>
   snd (getOverviewDocFor sample_env ''../private'') =
     Inr \<lparr>content = [\<lparr>type = ''text'', text = ''secret''\<rparr>], isError = None\<rparr> \<and>
   detailDocPath ''/srv/app'' ''..'' ''private/overview'' = ''/srv/app/private/overview.md'' \<and>
   \<not> path_under (join [''/srv/app'', ''docs''])
       (detailDocPath ''/srv/app'' ''..'' ''private/overview'') \<and>
   snd (getDetailedDocFor sample_env ''..'' ''private/overview'') =
     Inr \<lparr>content = [\<lparr>type = ''text'', text = ''secret''\<rparr>], isError = None\<rparr>"
proof (intro conjI)
  show "overviewDocPath ''/srv/app'' ''../private'' = ''/srv/app/private/overview.md''"
    by (simp add: path_eval)
  show "\<not> path_under (join [''/srv/app'', ''docs'']) (overviewDocPath ''/srv/app'' ''../private'')"
    by (simp add: path_eval path_under_def)
  show "snd (getOverviewDocFor sample_env ''../private'') =
     Inr \<lparr>content = [\<lparr>type = ''text'', text = ''secret''\<rparr>], isError = None\<rparr>"
    by (simp add: getOverviewDocFor_def overview_try_def module_projectRoot_ok [OF sample_root]
        io_simps path_eval) (simp add: sample_eval io_simps)
  show "detailDocPath ''/srv/app'' ''..'' ''private/overview'' = ''/srv/app/private/overview.md''"
    by (simp add: path_eval)
  show "\<not> path_under (join [''/srv/app'', ''docs''])
       (detailDocPath ''/srv/app'' ''..'' ''private/overview'')"
    by (simp add: path_eval path_under_def)
  show "snd (getDetailedDocFor sample_env ''..'' ''private/overview'') =
     Inr \<lparr>content = [\<lparr>type = ''text'', text = ''secret''\<rparr>], isError = None\<rparr>"
    by (simp add: getDetailedDocFor_def detail_try_def module_projectRoot_ok [OF sample_root]
        io_simps path_eval) (simp add: sample_eval io_simps)
qed

text \<open>
  Claim C3, amended. Let the decoded path of the running module be absolute and
  \<open>root\<close> the project root. For every \<open>name\<close> none of whose segments between slashes is
  \<^verbatim>\<open>..\<close>, the overview path lies below \<^verbatim>\<open><root>/docs\<close>; for every \<open>project\<close> and
  \<open>document\<close> none of whose segments is \<^verbatim>\<open>..\<close>, so does the detail path.
\<close>

theorem paths_stay_under_docs:
  assumes "decodeURIComponent env (import_meta_url_pathname env) = Inr decoded"
    and "decoded \<noteq> []" and "hd decoded = CHR ''/''"
    and "root = normalize (dirname decoded @ ''/..'')"
  shows "module_projectRoot env = ([], Inr (dirname decoded, root)) \<and>
         (''..'' \<notin> set (split_on CHR ''/'' name) \<longrightarrow>
            path_under (join [root, ''docs'']) (overviewDocPath root name)) \<and>
         (''..'' \<notin> set (split_on CHR ''/'' project) \<and>
          ''..'' \<notin> set (split_on CHR ''/'' document) \<longrightarrow>
            path_under (join [root, ''docs'']) (detailDocPath root project document))"
proof -
  note m = dirname_absolute [OF assms(2,3)]
  have mp: "module_projectRoot env = ([], Inr (dirname decoded, root))"
    unfolding assms(4) using assms(1-3) by (rule module_projectRoot_absolute)
  have ra: "root \<noteq> []" "hd root = CHR ''/''"
    unfolding assms(4) using m by (simp_all add: root_absolute)
  have ov: "path_under (join [root, ''docs'']) (overviewDocPath root name)"
    if "''..'' \<notin> set (split_on CHR ''/'' name)"
    using under_docs [OF ra that, of "''overview.md''"]
      join_as_normalize4 [OF ra(1), of "''overview.md''" name]
    by (simp add: overviewDocPath_def)
  have de: "path_under (join [root, ''docs'']) (detailDocPath root project document)"
    if "''..'' \<notin> set (split_on CHR ''/'' project)" "''..'' \<notin> set (split_on CHR ''/'' document)"
    using under_docs [OF ra that(1) md_segments_no_dotdot [OF that(2)] _ _ md_segments_kept]
      join_as_normalize4 [OF ra(1), of "document @ ''.md''" project]
    by (simp add: detailDocPath_def)
  from mp ov de show ?thesis by blast
qed

text \<open>
  The sample installation, \<^verbatim>\<open>sample\<close> and \<^verbatim>\<open>tool\<close>.
\<close>

theorem paths_stay_under_docs_witness:
  "path_under ''/srv/app/docs'' ''/srv/app/docs/sample/overview.md'' \<and>
   path_under ''/srv/app/docs'' ''/srv/app/docs/sample/tool.md''"
proof -
  have s: "''..'' \<notin> set (split_on CHR ''/'' ''sample'') \<and>
           ''..'' \<notin> set (split_on CHR ''/'' ''tool'')"
    by simp
  have e: "join [''/srv/app'', ''docs''] = ''/srv/app/docs''"
    "overviewDocPath ''/srv/app'' ''sample'' = ''/srv/app/docs/sample/overview.md''"
    "detailDocPath ''/srv/app'' ''sample'' ''tool'' = ''/srv/app/docs/sample/tool.md''"
    by (simp_all add: path_eval)
  from paths_stay_under_docs [OF sample_decoded _ _ sample_root_normalize,
      of "''sample''" "''sample''" "''tool''"] s
  show ?thesis by (simp add: e)
qed

subsection \<open>C4: what the overview handler answers when the lookup fails\<close>

text \<open>
  Claim C4 says that the error response of \<^verbatim>\<open>getOverviewDocFor\<close> embeds the failure
  message and, if available, a directory listing. The response embeds the name and the
  message only. In the sample installation \<^verbatim>\<open>docs/drafts\<close> has no
  \<^verbatim>\<open>overview.md\<close>; its listing \<^verbatim>\<open>notes.md\<close> is available, and the text of the
  error response does not contain it.
\<close>

theorem overview_error_embeds_listing_counterexample:
  "readdir sample_env ''/srv/app/docs/drafts'' = Inr [''notes.md''] \<and>
   snd (getOverviewDocFor sample_env ''drafts'') =
     Inr \<lparr>content =
            [\<lparr>type = ''text'',
              text = ''Error: Could not find overview document for '' @ dquote @ ''drafts''
                     @ dquote @ ''. ''
                     @ ''ENOENT: no such file or directory, access '' @ squote
                     @ ''/srv/app/docs/drafts/overview.md'' @ squote\<rparr>],
          isError = Some True\<rparr> \<and>
   \<not> sublist ''notes.md''
       (''Error: Could not find overview document for '' @ dquote @ ''drafts''
         @ dquote @ ''. ''
         @ ''ENOENT: no such file or directory, access '' @ squote
                     @ ''/srv/app/docs/drafts/overview.md'' @ squote)"
proof (intro conjI)
  show "readdir sample_env ''/srv/app/docs/drafts'' = Inr [''notes.md'']"
    by (simp add: sample_eval)
  show "snd (getOverviewDocFor sample_env ''drafts'') =
     Inr \<lparr>content =
            [\<lparr>type = ''text'',
              text = ''Error: Could not find overview document for '' @ dquote @ ''drafts''
                     @ dquote @ ''. ''
                     @ ''ENOENT: no such file or directory, access '' @ squote
                     @ ''/srv/app/docs/drafts/overview.md'' @ squote\<rparr>],
          isError = Some True\<rparr>"
    by (simp add: getOverviewDocFor_cases sample_overview_drafts_fails overview_catch_snd enoent_def)
  show "\<not> sublist ''notes.md''
       (''Error: Could not find overview document for '' @ dquote @ ''drafts''
         @ dquote @ ''. ''
         @ ''ENOENT: no such file or directory, access '' @ squote
                     @ ''/srv/app/docs/drafts/overview.md'' @ squote)"
    by (simp add: dquote_def squote_def sublist_Cons_right)
qed

text \<open>
  Claim C4, amended. When the \<^verbatim>\<open>try\<close> block of \<^verbatim>\<open>getOverviewDocFor(name)\<close>
  fails with \<open>e\<close>, the handler fulfils with the error response whose text is
  \<^verbatim>\<open>Error: Could not find overview document for "<name>". <message of e>\<close>, whatever
  the directories hold. The listings go to the log: when \<^verbatim>\<open>process.cwd()\<close> is \<open>d\<close> and
  \<^verbatim>\<open>d/docs\<close> can be listed, its entries are logged, and so are the entries of
  \<^verbatim>\<open>d/docs/<name>\<close> when \<open>name\<close> is among them and that directory can be listed.
\<close>

theorem overview_error_keeps_listing_in_log:
  assumes "snd (overview_try env name) = Inl e"
  shows "snd (getOverviewDocFor env name) =
           Inr \<lparr>content =
                  [\<lparr>type = ''text'',
                    text = ''Error: Could not find overview document for '' @ dquote @ name
                           @ dquote @ ''. '' @ error_message e\<rparr>],
                isError = Some True\<rparr> \<and>
         (cwd env = Inr d \<and> readdir env (join [d, ''docs'']) = Inr files \<longrightarrow>
            FilesInDocs files \<in> set (fst (getOverviewDocFor env name)) \<and>
            (name \<in> set files \<and> readdir env (join [join [d, ''docs''], name]) = Inr subFiles \<longrightarrow>
               FilesInSubdir name subFiles \<in> set (fst (getOverviewDocFor env name))))"
proof -
  have log: "set (fst (overview_listing env name)) \<subseteq> set (fst (getOverviewDocFor env name))"
    using overview_catch_log [of env name e]
    by (auto simp: getOverviewDocFor_def fst_try_catch_Inl [OF assms])
  have "snd (getOverviewDocFor env name) = snd (overview_catch env name e)"
    by (simp add: getOverviewDocFor_cases assms)
  then show ?thesis
    using log overview_listing_docs overview_listing_subdir
    by (simp add: overview_catch_snd) blast
qed

text \<open>
  For \<^verbatim>\<open>drafts\<close> in the sample installation: the response, and both listings in the log.
\<close>

theorem overview_error_keeps_listing_in_log_witness:
  "snd (getOverviewDocFor sample_env ''drafts'') =
     Inr \<lparr>content =
            [\<lparr>type = ''text'',
              text = ''Error: Could not find overview document for '' @ dquote @ ''drafts''
                     @ dquote @ ''. ''
                     @ ''ENOENT: no such file or directory, access '' @ squote
                     @ ''/srv/app/docs/drafts/overview.md'' @ squote\<rparr>],
          isError = Some True\<rparr> \<and>
   FilesInDocs [''drafts'', ''sample''] \<in> set (fst (getOverviewDocFor sample_env ''drafts'')) \<and>
   FilesInSubdir ''drafts'' [''notes.md''] \<in> set (fst (getOverviewDocFor sample_env ''drafts''))"
  using overview_error_keeps_listing_in_log [OF sample_overview_drafts_fails,
      of "''/srv/app''" "[''drafts'', ''sample'']" "[''notes.md'']"]
  by (simp add: path_eval) (simp add: sample_eval)

subsection \<open>C5: a missing document in an existing project\<close>

text \<open>
  Claim C5 says that the error response enumerates the file names of
  \<^verbatim>\<open>docs/<project>\<close> for every \<open>(project, document)\<close> whose directory exists and whose
  document does not. Two cases escape it. The path of the document is normalised by
  \<^verbatim>\<open>path.join\<close> before the file system sees it: in the sample installation
  \<^verbatim>\<open>docs/sample\<close> exists and holds no \<^verbatim>\<open>ghost/../tool.md\<close>, yet
  \<^verbatim>\<open>getDetailedDocFor("sample", "ghost/../tool")\<close> answers with the text of
  \<^verbatim>\<open>docs/sample/tool.md\<close>, without \<^verbatim>\<open>isError\<close>. And a directory that exists may
  refuse to be listed: then \<^verbatim>\<open>getDetailedDocFor("sample", "resource")\<close> answers with the
  text for a missing project, which names none of the files that are there.
\<close>

theorem missing_document_counterexample:
  "access sample_env ''/srv/app/docs/sample'' = Inr () \<and>
   readdir sample_env ''/srv/app/docs/sample'' = Inr [''overview.md'', ''tool.md''] \<and>
   ''ghost/../tool.md'' \<notin> set [''overview.md'', ''tool.md''] \<and>
   access sample_env ''/srv/app/docs/sample/ghost/../tool.md'' =
     Inl (enoent ''access'' ''/srv/app/docs/sample/ghost/../tool.md'') \<and>
   snd (getDetailedDocFor sample_env ''sample'' ''ghost/../tool'') =
     Inr \<lparr>content = [\<lparr>type = ''text'', text = ''# Tools''\<rparr>], isError = None\<rparr> \<and>
   access locked_env ''/srv/app/docs/sample'' = Inr () \<and>
   readFile locked_env ''/srv/app/docs/sample/tool.md'' = Inr ''# Tools'' \<and>
   access locked_env ''/srv/app/docs/sample/resource.md'' =
     Inl (enoent ''access'' ''/srv/app/docs/sample/resource.md'') \<and>
   snd (getDetailedDocFor locked_env ''sample'' ''resource'') =
     Inr \<lparr>content =
            [\<lparr>type = ''text'',
              text = ''Error: Could not find project '' @ dquote @ ''sample'' @ dquote
                     @ '' or document '' @ dquote @ ''resource.md'' @ dquote @ ''. ''
                     @ ''ENOENT: no such file or directory, access '' @ squote
                     @ ''/srv/app/docs/sample/resource.md'' @ squote\<rparr>],
          isError = Some True\<rparr> \<and>
   \<not> sublist ''tool.md''
       (''Error: Could not find project '' @ dquote @ ''sample'' @ dquote
         @ '' or document '' @ dquote @ ''resource.md'' @ dquote @ ''. ''
         @ ''ENOENT: no such file or directory, access '' @ squote
         @ ''/srv/app/docs/sample/resource.md'' @ squote)"
proof (intro conjI)
  show "access sample_env ''/srv/app/docs/sample'' = Inr ()"
    by (simp add: sample_eval)
  show "readdir sample_env ''/srv/app/docs/sample'' = Inr [''overview.md'', ''tool.md'']"
    by (simp add: sample_eval)
  show "''ghost/../tool.md'' \<notin> set [''overview.md'', ''tool.md'']"
    by simp
  show "access sample_env ''/srv/app/docs/sample/ghost/../tool.md'' =
     Inl (enoent ''access'' ''/srv/app/docs/sample/ghost/../tool.md'')"
    by (simp add: sample_eval)
  show "snd (getDetailedDocFor sample_env ''sample'' ''ghost/../tool'') =
     Inr \<lparr>content = [\<lparr>type = ''text'', text = ''# Tools''\<rparr>], isError = None\<rparr>"
    by (simp add: getDetailedDocFor_def detail_try_def module_projectRoot_ok [OF sample_root]
        io_simps path_eval) (simp add: sample_eval io_simps)
  show "access locked_env ''/srv/app/docs/sample'' = Inr ()"
    by (simp add: locked_env_def sample_eval)
  show "readFile locked_env ''/srv/app/docs/sample/tool.md'' = Inr ''# Tools''"
    by (simp add: locked_env_def sample_eval)
  show "access locked_env ''/srv/app/docs/sample/resource.md'' =
     Inl (enoent ''access'' ''/srv/app/docs/sample/resource.md'')"
    by (simp add: locked_env_def sample_eval)
  show "snd (getDetailedDocFor locked_env ''sample'' ''resource'') =
     Inr \<lparr>content =
            [\<lparr>type = ''text'',
              text = ''Error: Could not find project '' @ dquote @ ''sample'' @ dquote
                     @ '' or document '' @ dquote @ ''resource.md'' @ dquote @ ''. ''
                     @ ''ENOENT: no such file or directory, access '' @ squote
                     @ ''/srv/app/docs/sample/resource.md'' @ squote\<rparr>],
          isError = Some True\<rparr>"
    by (simp add: getDetailedDocFor_cases detail_catch_snd locked_detail_resource_fails
        locked_listing_fails detail_no_project_def io_return_def enoent_def)
  show "\<not> sublist ''tool.md''
       (''Error: Could not find project '' @ dquote @ ''sample'' @ dquote
         @ '' or document '' @ dquote @ ''resource.md'' @ dquote @ ''. ''
         @ ''ENOENT: no such file or directory, access '' @ squote
         @ ''/srv/app/docs/sample/resource.md'' @ squote)"
    by (simp add: dquote_def squote_def sublist_Cons_right)
qed

text \<open>
  Claim C5, amended. Let the project root resolve to \<open>projectRoot\<close>. If the existence
  check of \<^verbatim>\<open>path.join(projectRoot, "docs", project, document + ".md")\<close> fails with
  \<open>e\<close>, the one of the directory \<^verbatim>\<open>path.join(projectRoot, "docs", project)\<close> passes and
  listing that directory yields \<open>files\<close>, then \<^verbatim>\<open>getDetailedDocFor\<close> fulfils with an
  error response whose text is
  \<^verbatim>\<open>Error: Could not find document "<document>.md" for project "<project>". \<close>, a line
  break, \<^verbatim>\<open>Available documents: <files joined with ", ">. <message of e>\<close>; every file
  name of the directory occurs in it.
\<close>

theorem detail_error_lists_directory:
  assumes "decodeURIComponent env (import_meta_url_pathname env) = Inr decoded"
    and "resolve (cwd env) [dirname decoded, ''..''] = Inr projectRoot"
    and "access env (join [projectRoot, ''docs'', project, document @ ''.md'']) = Inl e"
    and "access env (join [projectRoot, ''docs'', project]) = Inr ()"
    and "readdir env (join [projectRoot, ''docs'', project]) = Inr files"
  shows "\<exists>t. snd (getDetailedDocFor env project document) =
               Inr \<lparr>content = [\<lparr>type = ''text'', text = t\<rparr>], isError = Some True\<rparr> \<and>
             t = ''Error: Could not find document '' @ dquote @ document @ ''.md'' @ dquote
                 @ '' for project '' @ dquote @ project @ dquote @ ''. '' @ newline
                 @ ''Available documents: '' @ join_with '', '' files @ ''. ''
                 @ error_message e \<and>
             (\<forall>f \<in> set files. sublist f t)"
proof -
  let ?t = "''Error: Could not find document '' @ dquote @ document @ ''.md'' @ dquote
                 @ '' for project '' @ dquote @ project @ dquote @ ''. '' @ newline
                 @ ''Available documents: '' @ join_with '', '' files @ ''. ''
                 @ error_message e"
  from assms(3) have doc: "access env (detailDocPath projectRoot project document) = Inl e"
    by (simp only: detailDocPath_def)
  from assms(4,5) have dir: "access env (projectDirPath projectRoot project) = Inr ()"
    "readdir env (projectDirPath projectRoot project) = Inr files"
    by (simp_all only: projectDirPath_def)
  have "snd (detail_listing env project document (error_message e)) =
          Inr \<lparr>content = [\<lparr>type = ''text'', text = ?t\<rparr>], isError = Some True\<rparr>"
    using dir
    by (simp add: detail_listing_def module_projectRoot_ok [OF assms(1,2)] io_simps)
  then have "snd (getDetailedDocFor env project document) =
          Inr \<lparr>content = [\<lparr>type = ''text'', text = ?t\<rparr>], isError = Some True\<rparr>"
    by (simp add: getDetailedDocFor_cases detail_try_access_fails [OF assms(1,2) doc]
        detail_catch_snd)
  moreover have "sublist f ?t" if "f \<in> set files" for f
    using sublist_in_mid [OF sublist_join_with [OF that, of "'', ''"],
        of "''Error: Could not find document '' @ dquote @ document @ ''.md'' @ dquote
                 @ '' for project '' @ dquote @ project @ dquote @ ''. '' @ newline
                 @ ''Available documents: ''" "''. '' @ error_message e"]
    by simp
  ultimately show ?thesis by blast
qed

text \<open>
  \<^verbatim>\<open>getDetailedDocFor("sample", "resource")\<close> in the sample installation: the directory
  \<^verbatim>\<open>/srv/app/docs/sample\<close> lists \<^verbatim>\<open>overview.md\<close> and \<^verbatim>\<open>tool.md\<close>, and the
  response names both.
\<close>

theorem detail_error_lists_directory_witness:
  "join [''/srv/app'', ''docs'', ''sample''] = ''/srv/app/docs/sample'' \<and>
   readdir sample_env ''/srv/app/docs/sample'' = Inr [''overview.md'', ''tool.md''] \<and>
   (\<exists>t. snd (getDetailedDocFor sample_env ''sample'' ''resource'') =
          Inr \<lparr>content = [\<lparr>type = ''text'', text = t\<rparr>], isError = Some True\<rparr> \<and>
        sublist ''overview.md'' t \<and> sublist ''tool.md'' t)"
proof -
  have j: "join [''/srv/app'', ''docs'', ''sample'', ''resource'' @ ''.md''] =
             ''/srv/app/docs/sample/resource.md''"
    "join [''/srv/app'', ''docs'', ''sample''] = ''/srv/app/docs/sample''"
    by (simp_all add: path_eval)
  have f: "access sample_env ''/srv/app/docs/sample/resource.md'' =
          Inl (enoent ''access'' ''/srv/app/docs/sample/resource.md'')"
    "access sample_env ''/srv/app/docs/sample'' = Inr ()"
    "readdir sample_env ''/srv/app/docs/sample'' = Inr [''overview.md'', ''tool.md'']"
    by (simp_all add: sample_eval)
  have a: "access sample_env (join [''/srv/app'', ''docs'', ''sample'', ''resource'' @ ''.md'']) =
          Inl (enoent ''access'' ''/srv/app/docs/sample/resource.md'')"
    and b: "access sample_env (join [''/srv/app'', ''docs'', ''sample'']) = Inr ()"
    and c: "readdir sample_env (join [''/srv/app'', ''docs'', ''sample'']) =
          Inr [''overview.md'', ''tool.md'']"
    by (simp_all only: j f)
  from detail_error_lists_directory [OF sample_root a b c] j(2) f(3) show ?thesis by auto
qed

subsection \<open>C6: a missing project, and a listing that fails\<close>

text \<open>
  Claim C6 says that \<^verbatim>\<open>getDetailedDocFor\<close> returns an error response for every
  \<open>(project, document)\<close> whose directory \<^verbatim>\<open>docs/<project>\<close> does not exist. The path
  of the document is normalised by \<^verbatim>\<open>path.join\<close> before the file system sees it, so a
  document that climbs out of the missing directory is found: in the sample
  installation \<^verbatim>\<open>docs/ghost\<close> does not exist and
  \<^verbatim>\<open>getDetailedDocFor("ghost", "../sample/tool")\<close> answers with the text of
  \<^verbatim>\<open>docs/sample/tool.md\<close>, without \<^verbatim>\<open>isError\<close>.
\<close>

theorem missing_project_counterexample:
  "access sample_env (projectDirPath ''/srv/app'' ''ghost'') =
     Inl (enoent ''access'' ''/srv/app/docs/ghost'') \<and>
   snd (getDetailedDocFor sample_env ''ghost'' ''../sample/tool'') =
     Inr \<lparr>content = [\<lparr>type = ''text'', text = ''# Tools''\<rparr>], isError = None\<rparr>"
proof
  show "access sample_env (projectDirPath ''/srv/app'' ''ghost'') =
     Inl (enoent ''access'' ''/srv/app/docs/ghost'')"
    by (simp add: path_eval) (simp add: sample_eval)
  show "snd (getDetailedDocFor sample_env ''ghost'' ''../sample/tool'') =
     Inr \<lparr>content = [\<lparr>type = ''text'', text = ''# Tools''\<rparr>], isError = None\<rparr>"
    by (simp add: getDetailedDocFor_def detail_try_def module_projectRoot_ok [OF sample_root]
        io_simps path_eval) (simp add: sample_eval io_simps)
qed

text \<open>
  Claim C6, amended. Let the project root resolve to \<open>projectRoot\<close>. If the
  \<^verbatim>\<open>try\<close> block of \<^verbatim>\<open>getDetailedDocFor(project, document)\<close> fails with \<open>e\<close>, and
  the existence check of \<^verbatim>\<open>docs/<project>\<close> fails or the directory cannot be listed,
  then the handler fulfils with the error response
  \<^verbatim>\<open>Error: Could not find project "<project>" or document "<document>.md". <message of e>\<close>,
  which lists nothing. In \<^verbatim>\<open>getOverviewDocFor\<close> a failure \<open>e'\<close> of the diagnostic
  listing changes nothing in the error response either; it is logged as the last line.
\<close>

theorem listing_failure_is_swallowed:
  assumes "decodeURIComponent env (import_meta_url_pathname env) = Inr decoded"
    and "resolve (cwd env) [dirname decoded, ''..''] = Inr projectRoot"
  shows "(snd (detail_try env project document) = Inl e \<and>
          (access env (projectDirPath projectRoot project) = Inl e' \<or>
           readdir env (projectDirPath projectRoot project) = Inl e') \<longrightarrow>
          snd (getDetailedDocFor env project document) =
            Inr \<lparr>content =
                   [\<lparr>type = ''text'',
                     text = ''Error: Could not find project '' @ dquote @ project @ dquote
                            @ '' or document '' @ dquote @ document @ ''.md'' @ dquote
                            @ ''. '' @ error_message e\<rparr>],
                 isError = Some True\<rparr>) \<and>
         (snd (overview_try env name) = Inl e \<and> snd (overview_listing env name) = Inl e' \<longrightarrow>
          snd (getOverviewDocFor env name) =
            Inr \<lparr>content =
                   [\<lparr>type = ''text'',
                     text = ''Error: Could not find overview document for '' @ dquote @ name
                            @ dquote @ ''. '' @ error_message e\<rparr>],
                 isError = Some True\<rparr> \<and>
          last (fst (getOverviewDocFor env name)) = ErrorListing (error_message e'))"
proof (intro conjI impI)
  assume h: "snd (detail_try env project document) = Inl e \<and>
          (access env (projectDirPath projectRoot project) = Inl e' \<or>
           readdir env (projectDirPath projectRoot project) = Inl e')"
  then have "isl (snd (detail_listing env project document (error_message e)))"
    using detail_listing_fails [OF assms] by blast
  then obtain x where "snd (detail_listing env project document (error_message e)) = Inl x"
    by (auto simp: isl_def)
  with h show "snd (getDetailedDocFor env project document) =
            Inr \<lparr>content =
                   [\<lparr>type = ''text'',
                     text = ''Error: Could not find project '' @ dquote @ project @ dquote
                            @ '' or document '' @ dquote @ document @ ''.md'' @ dquote
                            @ ''. '' @ error_message e\<rparr>],
                 isError = Some True\<rparr>"
    by (simp add: getDetailedDocFor_cases detail_catch_snd detail_no_project_def io_return_def)
next
  assume h: "snd (overview_try env name) = Inl e \<and> snd (overview_listing env name) = Inl e'"
  then show "snd (getOverviewDocFor env name) =
            Inr \<lparr>content =
                   [\<lparr>type = ''text'',
                     text = ''Error: Could not find overview document for '' @ dquote @ name
                            @ dquote @ ''. '' @ error_message e\<rparr>],
                 isError = Some True\<rparr>"
    by (simp add: getOverviewDocFor_cases overview_catch_snd)
next
  assume h: "snd (overview_try env name) = Inl e \<and> snd (overview_listing env name) = Inl e'"
  have ne: "fst (overview_catch env name e) \<noteq> []"
    by (simp add: overview_catch_def io_simps)
  from h have "fst (getOverviewDocFor env name) =
      fst (overview_try env name) @ fst (overview_catch env name e)"
    by (simp add: getOverviewDocFor_def fst_try_catch_Inl)
  with ne h show "last (fst (getOverviewDocFor env name)) = ErrorListing (error_message e')"
    by (simp add: overview_catch_listing_fails_log)
qed

text \<open>
  \<^verbatim>\<open>getDetailedDocFor("ghost", "resource")\<close> in the sample installation, and
  \<^verbatim>\<open>getOverviewDocFor("ghost")\<close> when the server was started from \<^verbatim>\<open>/home/user\<close>,
  where there is no \<^verbatim>\<open>docs\<close> directory to list.
\<close>

theorem listing_failure_is_swallowed_witness:
  "snd (getDetailedDocFor sample_env ''ghost'' ''resource'') =
     Inr \<lparr>content =
            [\<lparr>type = ''text'',
              text = ''Error: Could not find project '' @ dquote @ ''ghost'' @ dquote
                     @ '' or document '' @ dquote @ ''resource.md'' @ dquote @ ''. ''
                     @ ''ENOENT: no such file or directory, access '' @ squote
                     @ ''/srv/app/docs/ghost/resource.md'' @ squote\<rparr>],
          isError = Some True\<rparr> \<and>
   snd (getOverviewDocFor elsewhere_env ''ghost'') =
     Inr \<lparr>content =
            [\<lparr>type = ''text'',
              text = ''Error: Could not find overview document for '' @ dquote @ ''ghost''
                     @ dquote @ ''. ''
                     @ ''ENOENT: no such file or directory, access '' @ squote
                     @ ''/srv/app/docs/ghost/overview.md'' @ squote\<rparr>],
          isError = Some True\<rparr> \<and>
   last (fst (getOverviewDocFor elsewhere_env ''ghost'')) =
     ErrorListing (''ENOENT: no such file or directory, scandir '' @ squote @ ''/home/user/docs''
       @ squote)"
proof -
  have a: "access sample_env (projectDirPath ''/srv/app'' ''ghost'') =
             Inl (enoent ''access'' ''/srv/app/docs/ghost'')"
    by (simp add: path_eval) (simp add: sample_eval)
  show ?thesis
    using listing_failure_is_swallowed [OF sample_root, of "''ghost''" "''resource''"
        "enoent ''access'' ''/srv/app/docs/ghost/resource.md''" "enoent ''access'' ''/srv/app/docs/ghost''"]
      listing_failure_is_swallowed [OF elsewhere_root, of _ _
        "enoent ''access'' ''/srv/app/docs/ghost/overview.md''" "enoent ''scandir'' ''/home/user/docs''" "''ghost''"]
    by (simp add: a sample_detail_ghost_fails elsewhere_overview_ghost_fails
        elsewhere_listing_fails) (simp add: enoent_def)
qed

subsection \<open>C7: no handler throws\<close>



subsection \<open>C8: the error of the overview handler names the namespace\<close>

text \<open>
  Claim C8 says that \<^verbatim>\<open>getOverviewDocFor(name)\<close> returns an error response, whose text
  contains the name, for every name with no matching namespace directory. The path is
  normalised by \<^verbatim>\<open>path.join\<close> before the file system sees it, so a name that passes
  through a missing directory and climbs out of it is found: in the sample installation
  there is no \<^verbatim>\<open>docs/ghost\<close>, the listing of \<^verbatim>\<open>docs\<close> has no entry
  \<^verbatim>\<open>ghost/../sample\<close> and the path \<^verbatim>\<open>docs/ghost/../sample\<close> does not exist, yet
  \<^verbatim>\<open>getOverviewDocFor("ghost/../sample")\<close> answers with the text of
  \<^verbatim>\<open>docs/sample/overview.md\<close>, without \<^verbatim>\<open>isError\<close>.
\<close>

theorem missing_namespace_counterexample:
  "access sample_env ''/srv/app/docs/ghost'' = Inl (enoent ''access'' ''/srv/app/docs/ghost'') \<and>
   access sample_env ''/srv/app/docs/ghost/../sample'' =
     Inl (enoent ''access'' ''/srv/app/docs/ghost/../sample'') \<and>
   readdir sample_env ''/srv/app/docs'' = Inr [''drafts'', ''sample''] \<and>
   ''ghost/../sample'' \<notin> set [''drafts'', ''sample''] \<and>
   snd (getOverviewDocFor sample_env ''ghost/../sample'') =
     Inr \<lparr>content = [\<lparr>type = ''text'', text = ''Hello''\<rparr>], isError = None\<rparr>"
proof (intro conjI)
  show "access sample_env ''/srv/app/docs/ghost'' =
          Inl (enoent ''access'' ''/srv/app/docs/ghost'')"
    by (simp add: sample_eval)
  show "access sample_env ''/srv/app/docs/ghost/../sample'' =
          Inl (enoent ''access'' ''/srv/app/docs/ghost/../sample'')"
    by (simp add: sample_eval)
  show "readdir sample_env ''/srv/app/docs'' = Inr [''drafts'', ''sample'']"
    by (simp add: sample_eval)
  show "''ghost/../sample'' \<notin> set [''drafts'', ''sample'']"
    by simp
  show "snd (getOverviewDocFor sample_env ''ghost/../sample'') =
     Inr \<lparr>content = [\<lparr>type = ''text'', text = ''Hello''\<rparr>], isError = None\<rparr>"
    by (simp add: getOverviewDocFor_def overview_try_def module_projectRoot_ok [OF sample_root]
        io_simps path_eval) (simp add: sample_eval io_simps)
qed

text \<open>
  Claim C8, amended. Let the project root resolve to \<open>projectRoot\<close>. For every \<open>name\<close>
  for which the existence check of \<^verbatim>\<open>path.join(projectRoot, "docs", name, "overview.md")\<close>
  fails, as it does when no directory exists at the normalised path
  \<^verbatim>\<open>path.join(projectRoot, "docs", name)\<close>, \<^verbatim>\<open>getOverviewDocFor(name)\<close> fulfils with
  an error response whose one text contains \<open>name\<close>.
\<close>

theorem overview_error_names_namespace:
  assumes "decodeURIComponent env (import_meta_url_pathname env) = Inr decoded"
    and "resolve (cwd env) [dirname decoded, ''..''] = Inr projectRoot"
    and "access env (join [projectRoot, ''docs'', name, ''overview.md'']) = Inl e"
  shows "\<exists>r. snd (getOverviewDocFor env name) = Inr r \<and> isError r = Some True \<and>
             length (content r) = 1 \<and> sublist name (text (hd (content r)))"
proof -
  from assms(3) have "access env (overviewDocPath projectRoot name) = Inl e"
    by (simp only: overviewDocPath_def)
  then have "snd (getOverviewDocFor env name) = snd (overview_catch env name e)"
    by (simp add: getOverviewDocFor_cases overview_try_access_fails [OF assms(1,2)])
  moreover have "sublist name
      (''Error: Could not find overview document for '' @ dquote @ name @ dquote @ ''. ''
         @ error_message e)"
    using sublist_appendI [of name "''Error: Could not find overview document for '' @ dquote"
        "dquote @ ''. '' @ error_message e"]
    by simp
  ultimately show ?thesis by (simp add: overview_catch_snd)
qed

text \<open>
  The missing namespace \<^verbatim>\<open>ghost\<close> of the sample installation.
\<close>

theorem overview_error_names_namespace_witness:
  "join [''/srv/app'', ''docs'', ''ghost'', ''overview.md''] =
     ''/srv/app/docs/ghost/overview.md'' \<and>
   (\<exists>r. snd (getOverviewDocFor sample_env ''ghost'') = Inr r \<and> isError r = Some True \<and>
        length (content r) = 1 \<and> sublist ''ghost'' (text (hd (content r))))"
proof -
  have j: "join [''/srv/app'', ''docs'', ''ghost'', ''overview.md''] =
             ''/srv/app/docs/ghost/overview.md''"
    by (simp add: path_eval)
  have "access sample_env ''/srv/app/docs/ghost/overview.md'' =
          Inl (enoent ''access'' ''/srv/app/docs/ghost/overview.md'')"
    by (simp add: sample_eval)
  then have "access sample_env (join [''/srv/app'', ''docs'', ''ghost'', ''overview.md'']) =
          Inl (enoent ''access'' ''/srv/app/docs/ghost/overview.md'')"
    by (simp only: j)
  from overview_error_names_namespace [OF sample_root this] j show ?thesis
    by (simp only: simp_thms)
qed

subsection \<open>C9: what the schemas check\<close>

text \<open>
  Claim C9 says that a request whose string parameter is empty is rejected before the
  handler runs. The schemas are \<^verbatim>\<open>z.string()\<close> with no minimum length: the empty
  string passes and the handler runs on it.
\<close>

theorem empty_string_rejected_counterexample:
  "call_getOverviewDocFor sample_env [''name'' \<mapsto> JString []] =
     Handled (getOverviewDocFor sample_env []) \<and>
   call_getOverviewDocFor sample_env [''name'' \<mapsto> JString []] \<noteq> InvalidParams \<and>
   call_getDetailedDocFor sample_env
       [''project'' \<mapsto> JString [], ''document'' \<mapsto> JString []] =
     Handled (getDetailedDocFor sample_env [] [])"
  by (simp add: call_getOverviewDocFor_def call_getDetailedDocFor_def z_string_def)

text \<open>
  Claim C9, amended. The schemas check that \<open>name\<close>, \<open>project\<close> and \<open>document\<close>
  are present and are strings, and nothing else: a call whose argument is some string,
  empty or not, runs the handler on exactly that string; a call with an argument that
  is missing or not a string is refused and the handler does not run.
\<close>

theorem schema_accepts_every_string:
  "(args ''name'' = Some (JString name) \<longrightarrow>
      call_getOverviewDocFor env args = Handled (getOverviewDocFor env name)) \<and>
   ((\<forall>s. args ''name'' \<noteq> Some (JString s)) \<longrightarrow>
      call_getOverviewDocFor env args = InvalidParams) \<and>
   (args ''project'' = Some (JString project) \<and> args ''document'' = Some (JString document) \<longrightarrow>
      call_getDetailedDocFor env args = Handled (getDetailedDocFor env project document)) \<and>
   ((\<forall>s. args ''project'' \<noteq> Some (JString s)) \<or> (\<forall>s. args ''document'' \<noteq> Some (JString s)) \<longrightarrow>
      call_getDetailedDocFor env args = InvalidParams)"
  by (auto simp: call_getOverviewDocFor_def call_getDetailedDocFor_def z_string_def
      split: option.splits json.splits sum.splits)

text \<open>
  Calls with a string, with a number and with a missing argument.
\<close>

theorem schema_accepts_every_string_witness:
  "call_getOverviewDocFor sample_env [''name'' \<mapsto> JString ''sample''] =
     Handled (getOverviewDocFor sample_env ''sample'') \<and>
   call_getOverviewDocFor sample_env [''name'' \<mapsto> JNumber 7] = InvalidParams \<and>
   call_getDetailedDocFor sample_env
       [''project'' \<mapsto> JString ''sample'', ''document'' \<mapsto> JString ''tool''] =
     Handled (getDetailedDocFor sample_env ''sample'' ''tool'') \<and>
   call_getDetailedDocFor sample_env [''project'' \<mapsto> JString ''sample''] = InvalidParams"
  using schema_accepts_every_string [of "[''name'' \<mapsto> JString ''sample'']" "''sample''" sample_env]
    schema_accepts_every_string [of "[''name'' \<mapsto> JNumber 7]" _ sample_env]
    schema_accepts_every_string [of "[''project'' \<mapsto> JString ''sample'', ''document'' \<mapsto> JString ''tool'']"
       _ sample_env "''sample''" "''tool''"]
    schema_accepts_every_string [of "[''project'' \<mapsto> JString ''sample'']" _ sample_env]
  by simp

subsection \<open>C10: the shape of every response\<close>

text \<open>
  Claim C10. For every environment and every argument, the response of each handler has
  exactly one content item, of type \<^verbatim>\<open>text\<close>; \<^verbatim>\<open>isError\<close> is \<^verbatim>\<open>true\<close> when
  the \<^verbatim>\<open>try\<close> block failed and absent when it succeeded.
\<close>

theorem response_shape:
  "(\<exists>r. snd (getOverviewDocFor env name) = Inr r \<and>
        length (content r) = 1 \<and> type (hd (content r)) = ''text'' \<and>
        isError r = (if isl (snd (overview_try env name)) then Some True else None)) \<and>
   (\<exists>r. snd (getDetailedDocFor env project document) = Inr r \<and>
        length (content r) = 1 \<and> type (hd (content r)) = ''text'' \<and>
        isError r = (if isl (snd (detail_try env project document)) then Some True else None))"
proof
  show "\<exists>r. snd (getOverviewDocFor env name) = Inr r \<and>
        length (content r) = 1 \<and> type (hd (content r)) = ''text'' \<and>
        isError r = (if isl (snd (overview_try env name)) then Some True else None)"
  proof (cases "snd (overview_try env name)")
    case (Inl e)
    then show ?thesis by (simp add: getOverviewDocFor_cases overview_catch_snd)
  next
    case (Inr r)
    with overview_try_response [OF Inr] show ?thesis
      by (auto simp: getOverviewDocFor_cases)
  qed
next
  show "\<exists>r. snd (getDetailedDocFor env project document) = Inr r \<and>
        length (content r) = 1 \<and> type (hd (content r)) = ''text'' \<and>
        isError r = (if isl (snd (detail_try env project document)) then Some True else None)"
  proof (cases "snd (detail_try env project document)")
    case (Inl e)
    obtain t where "snd (detail_catch env project document e) =
       Inr \<lparr>content = [\<lparr>type = ''text'', text = t\<rparr>], isError = Some True\<rparr>"
      using detail_catch_response by blast
    with Inl show ?thesis by (simp add: getDetailedDocFor_cases)
  next
    case (Inr r)
    with detail_try_response [OF Inr] show ?thesis
      by (auto simp: getDetailedDocFor_cases)
  qed
qed

end
